theory Spec2Isabelle
  imports Main "HOL-Library.AList" "HOL-Library.Code_Target_Nat"
begin

section \<open>The task runner of Simply.js\<close>

text \<open>
  The class \<open>Simply\<close> of \<open>src/lib/Simply.js\<close> runs the files of a task folder one
  after the other, and installs the dependencies that the folder's config files declare.
  Everything it does to the outside goes through a few collaborators: the helper module
  (\<open>getTasks\<close>, \<open>getConfig\<close>, \<open>scanTasksDir\<close>), \<open>child_process.execSync\<close>,
  \<open>fs.readFileSync\<close>, \<open>JSON.parse\<close>, \<open>path.join\<close>, \<open>process.cwd\<close> and \<open>console.log\<close>.
  The collaborators are parameters of the model (the record \<open>sys\<close>); the state of the
  machine they read and change (the file system, the processes run so far) is a value of an
  arbitrary type \<open>'w\<close> that is passed along. Every call of a collaborator and every line
  printed is an event of a trace, in the order in which the code performs it. A call of
  \<open>execSync\<close> returns the output of the command or throws; a command that never ends is
  not modelled. The methods keep their names without the leading underscore
  (\<open>_execItem\<close> is \<open>execItem\<close>, \<open>_directory\<close> is \<open>directory\<close>).
\<close>

subsection \<open>Errors, parsed values, catalog items, events\<close>

text \<open>
  What a \<open>catch (error)\<close> of the source can receive: the \<open>TypeError\<close> that the runtime
  throws itself (a property read on \<open>null\<close>, a value with no text), or the error of a
  collaborator, with its message.
\<close>

datatype error = TypeError | Failure string

text \<open>
  The values \<open>JSON.parse\<close> returns. A number is carried as the text the runtime prints
  for it (\<open>''0''\<close> for both zeros), which is all this program observes of a number: whether
  it is zero, and its text inside a command. An object is the list of its own properties
  in the order of their creation.
\<close>

datatype json =
    JNull
  | JBool bool
  | JNum string
  | JStr string
  | JArr "json list"
  | JObj "(string \<times> json) list"

text \<open>The items the helper module returns: \<open>{path, pathAbs, type}\<close>.\<close>

record item =
  path :: string
  pathAbs :: string
  type :: string

datatype event =
    Log string
  | LogError error
  | ExecSync string
  | GetTasks string
  | GetConfig string
  | ScanTasksDir string string
  | ReadFileSync string

record 'w sys =
  getTasks :: "string \<Rightarrow> 'w \<Rightarrow> item list"
  getConfig :: "string \<Rightarrow> 'w \<Rightarrow> item list"
  scanTasksDir :: "string \<Rightarrow> string \<Rightarrow> 'w \<Rightarrow> item list"
  execSync :: "string \<Rightarrow> 'w \<Rightarrow> (error + string) \<times> 'w"
  readFileSync :: "string \<Rightarrow> 'w \<Rightarrow> error + string"
  JSON_parse :: "string \<Rightarrow> error + json"
  path_join :: "string \<Rightarrow> string \<Rightarrow> string"
  process_cwd :: string

text \<open>The commands a trace hands to \<open>execSync\<close>, in order.\<close>

fun invocations :: "event list \<Rightarrow> string list" where
  "invocations [] = []"
| "invocations (ExecSync c # es) = c # invocations es"
| "invocations (e # es) = invocations es"

text \<open>The number of times a trace reads the catalog of groups.\<close>

fun lookups :: "event list \<Rightarrow> nat" where
  "lookups [] = 0"
| "lookups (GetTasks d # es) = Suc (lookups es)"
| "lookups (e # es) = lookups es"

subsection \<open>The constructor\<close>

text \<open>
  \<open>config.x = config.x || d\<close>: a missing option and an empty string take the default, an
  array (also an empty one) is kept. The constructor writes the defaults into the config
  object and keeps \<open>_directory\<close> alone in the instance.
\<close>

record config =
  rootDir :: "string option"
  tasksDir :: "string option"
  extBinary :: "string list option"
  extScript :: "string list option"
  extConfig :: "string list option"

record simply =
  directory :: string

definition string_or :: "string option \<Rightarrow> string \<Rightarrow> string" where
  "string_or x d = (case x of None \<Rightarrow> d | Some s \<Rightarrow> if s = [] then d else s)"

definition array_or :: "string list option \<Rightarrow> string list \<Rightarrow> string list" where
  "array_or x d = (case x of None \<Rightarrow> d | Some xs \<Rightarrow> xs)"

definition no_config :: config where
  "no_config = \<lparr>rootDir = None, tasksDir = None, extBinary = None, extScript = None,
     extConfig = None\<rparr>"

definition constructor :: "'w sys \<Rightarrow> config option \<Rightarrow> config \<times> simply" where
  "constructor sys config =
    (let config = (case config of None \<Rightarrow> no_config | Some c \<Rightarrow> c);
         root = string_or (rootDir config) (process_cwd sys);
         tasks = string_or (tasksDir config) ''tasks'';
         binary = array_or (extBinary config) ['''', ''sh'', ''bat'', ''exe''];
         script = array_or (extScript config) [''js''];
         conf = array_or (extConfig config) [''json'']
     in (config\<lparr>rootDir := Some root, tasksDir := Some tasks, extBinary := Some binary,
           extScript := Some script, extConfig := Some conf\<rparr>,
         \<lparr>directory = path_join sys root tasks\<rparr>))"

subsection \<open>Running tasks\<close>

text \<open>
  \<open>items.forEach(f)\<close> and the counting \<open>for\<close> loops over an array: the body runs on
  every element in order, each run starting in the state the one before left.
\<close>

fun forEach :: "('a \<Rightarrow> 's \<Rightarrow> event list \<times> 's) \<Rightarrow> 'a list \<Rightarrow> 's \<Rightarrow> event list \<times> 's" where
  "forEach f [] s = ([], s)"
| "forEach f (x # xs) s =
    (case f x s of (t1, s1) \<Rightarrow>
       (case forEach f xs s1 of (t2, s2) \<Rightarrow> (t1 @ t2, s2)))"

text \<open>
  The command of \<open>_execItem\<close>: \<open>'node ' + item.pathAbs\<close> for a script, \<open>item.pathAbs\<close>
  for a binary, and no command (the early \<open>return\<close>) for every other type.
\<close>

definition command_of :: "item \<Rightarrow> string option" where
  "command_of it =
    (if type it = ''script'' then Some (''node '' @ pathAbs it)
     else if type it = ''binary'' then Some (pathAbs it)
     else None)"

definition execItem :: "'w sys \<Rightarrow> item \<Rightarrow> 'w \<Rightarrow> event list \<times> 'w" where
  "execItem sys it w =
    (case command_of it of
       None \<Rightarrow> ([], w)
     | Some command \<Rightarrow>
         (case execSync sys command w of
            (Inr output, w') \<Rightarrow>
              ([Log (''- '' @ pathAbs it), ExecSync command]
                 @ (if output \<noteq> [] then [Log output] else []), w')
          | (Inl err, w') \<Rightarrow>
              ([Log (''- '' @ pathAbs it), ExecSync command, LogError err], w')))"

definition execTask :: "'w sys \<Rightarrow> simply \<Rightarrow> item \<Rightarrow> 'w \<Rightarrow> event list \<times> 'w" where
  "execTask sys self it w =
    (let items = scanTasksDir sys (directory self) (path it) w
     in case forEach (execItem sys) items w of
          (t, w') \<Rightarrow> (ScanTasksDir (directory self) (path it) # t, w'))"

definition getTask :: "'w sys \<Rightarrow> simply \<Rightarrow> string \<Rightarrow> 'w \<Rightarrow> item option" where
  "getTask sys self task w = find (\<lambda>t. path t = task) (getTasks sys (directory self) w)"

definition runTask :: "'w sys \<Rightarrow> simply \<Rightarrow> string \<Rightarrow> 'w \<Rightarrow> event list \<times> 'w" where
  "runTask sys self task w =
    (case getTask sys self task w of
       None \<Rightarrow>
         ([GetTasks (directory self), Log (''Task '' @ task @ '' not found.'')], w)
     | Some it \<Rightarrow>
         (case execTask sys self it w of
            (t, w') \<Rightarrow>
              (GetTasks (directory self)
                 # Log (''Running task '' @ [CHR 0x22] @ task @ [CHR 0x22] @ '':'') # t, w')))"

definition run :: "'w sys \<Rightarrow> simply \<Rightarrow> string list option \<Rightarrow> 'w \<Rightarrow> event list \<times> 'w" where
  "run sys self tasks w =
    (let tasks = (case tasks of None \<Rightarrow> [] | Some ts \<Rightarrow> ts)
     in case forEach (runTask sys self) tasks w of
          (t, w') \<Rightarrow> ((if tasks = [] then [Log ''No tasks specified.''] else []) @ t, w'))"

subsection \<open>Collecting the dependencies\<close>

text \<open>
  The aggregate \<open>dependencies\<close> starts as the literal \<open>{}\<close>: an object with no own
  property, whose prototype is \<open>Object.prototype\<close>. What an assignment
  \<open>dependencies[key] = value\<close> can change is the list of own properties and, through the
  name \<open>__proto__\<close>, the prototype.
\<close>

datatype prototype = ObjectPrototype | NoPrototype | Prototype json

record object =
  props :: "(string \<times> json) list"
  proto :: prototype

definition empty_object :: object where
  "empty_object = \<lparr>props = [], proto = ObjectPrototype\<rparr>"

text \<open>
  \<open>Object.keys\<close> lists the own properties whose name is an array index (the decimal
  text, with no leading zero, of a number below \<open>2^32 - 1\<close>) first, by their number, and
  the others after them, as they were created.
\<close>

definition is_digit :: "char \<Rightarrow> bool" where
  "is_digit c = (48 \<le> (of_char c :: nat) \<and> (of_char c :: nat) \<le> 57)"

definition number_of :: "string \<Rightarrow> nat" where
  "number_of s = foldl (\<lambda>n c. 10 * n + (of_char c - 48)) 0 s"

definition is_array_index :: "string \<Rightarrow> bool" where
  "is_array_index s =
    (s \<noteq> [] \<and> list_all is_digit s \<and> (s = ''0'' \<or> hd s \<noteq> CHR ''0'')
       \<and> number_of s < 4294967295)"

definition own_keys :: "(string \<times> json) list \<Rightarrow> string list" where
  "own_keys ps =
    sort_key number_of (filter is_array_index (map fst ps))
      @ filter (\<lambda>k. \<not> is_array_index k) (map fst ps)"

text \<open>The pairs \<open>(key, o[key])\<close> that a loop over \<open>Object.keys(o)\<close> visits.\<close>

definition own_entries :: "(string \<times> json) list \<Rightarrow> (string \<times> json) list" where
  "own_entries ps = List.map_filter (\<lambda>k. map_option (Pair k) (map_of ps k)) (own_keys ps)"

fun digits_of :: "nat \<Rightarrow> string" where
  "digits_of n =
    (if n < 10 then [char_of (48 + n)]
     else digits_of (n div 10) @ [char_of (48 + n mod 10)])"

text \<open>
  \<open>Object.keys\<close> of any value that passed the test \<open>if (config.dependencies)\<close>: the
  own properties of an object, the indices of an array or of a string (whose elements are
  its characters), nothing for a number or a boolean.
\<close>

fun entries :: "json \<Rightarrow> (string \<times> json) list" where
  "entries (JObj ps) = own_entries ps"
| "entries (JArr xs) = zip (map digits_of [0..<length xs]) xs"
| "entries (JStr s) = zip (map digits_of [0..<length s]) (map (\<lambda>c. JStr [c]) s)"
| "entries _ = []"

text \<open>The test \<open>if (x)\<close> on a property that may be missing (\<open>None\<close> is \<open>undefined\<close>).\<close>

fun truthy :: "json option \<Rightarrow> bool" where
  "truthy None = False"
| "truthy (Some JNull) = False"
| "truthy (Some (JBool b)) = b"
| "truthy (Some (JNum t)) = (t \<noteq> ''0'')"
| "truthy (Some (JStr s)) = (s \<noteq> [])"
| "truthy (Some (JArr xs)) = True"
| "truthy (Some (JObj ps)) = True"

text \<open>
  The reads \<open>config.dependencies\<close> and \<open>config.devDependencies\<close>: a \<open>TypeError\<close> on
  \<open>null\<close>, the own property of an object, and \<open>undefined\<close> elsewhere (no prototype
  of the runtime has a property of either name).
\<close>

fun field :: "json \<Rightarrow> string \<Rightarrow> error + json option" where
  "field JNull k = Inl TypeError"
| "field (JObj ps) k = Inr (map_of ps k)"
| "field _ k = Inr None"

text \<open>
  \<open>dependencies[key] = value\<close>. An own property is overwritten where it stands and a
  new one is added last. The one name with another meaning is \<open>__proto__\<close>, while the
  object has no own property of that name: the assignment then finds the accessor of
  \<open>Object.prototype\<close>, unless the prototype chain ends before it (the prototype was set
  to \<open>null\<close>) or a parsed object on the chain has a property \<open>__proto__\<close> of its own.
  The accessor makes an object, an array or \<open>null\<close> the new prototype, ignores every
  other value, and adds no property.
\<close>

fun setter_reached :: "prototype \<Rightarrow> bool" where
  "setter_reached ObjectPrototype = True"
| "setter_reached NoPrototype = False"
| "setter_reached (Prototype (JObj ps)) = (''__proto__'' \<notin> fst ` set ps)"
| "setter_reached (Prototype v) = True"

fun set_prototype :: "object \<Rightarrow> json \<Rightarrow> object" where
  "set_prototype obj JNull = obj\<lparr>proto := NoPrototype\<rparr>"
| "set_prototype obj (JObj ps) = obj\<lparr>proto := Prototype (JObj ps)\<rparr>"
| "set_prototype obj (JArr xs) = obj\<lparr>proto := Prototype (JArr xs)\<rparr>"
| "set_prototype obj v = obj"

definition assign :: "object \<Rightarrow> string \<times> json \<Rightarrow> object" where
  "assign obj kv =
    (if fst kv = ''__proto__'' \<and> ''__proto__'' \<notin> fst ` set (props obj)
          \<and> setter_reached (proto obj)
     then set_prototype obj (snd kv)
     else obj\<lparr>props := AList.update (fst kv) (snd kv) (props obj)\<rparr>)"

text \<open>One of the two blocks \<open>if (config.f) { for (let key of Object.keys(config.f)) ... }\<close>.\<close>

definition merge_field :: "json option \<Rightarrow> object \<Rightarrow> object" where
  "merge_field f obj =
    (case f of
       None \<Rightarrow> obj
     | Some v \<Rightarrow> if truthy f then foldl assign obj (entries v) else obj)"

text \<open>
  The body of the \<open>try\<close> of \<open>_getDependencies\<close> after the parse. The aggregate is
  changed in place, so an error leaves it as it is at the moment of the throw.
\<close>

definition merge :: "json \<Rightarrow> object \<Rightarrow> object \<times> error option" where
  "merge config dependencies =
    (case field config ''dependencies'' of
       Inl err \<Rightarrow> (dependencies, Some err)
     | Inr f \<Rightarrow>
         (let dependencies = merge_field f dependencies
          in case field config ''devDependencies'' of
               Inl err \<Rightarrow> (dependencies, Some err)
             | Inr g \<Rightarrow> (merge_field g dependencies, None)))"

definition load :: "'w sys \<Rightarrow> 'w \<Rightarrow> item \<Rightarrow> error + json" where
  "load sys w it =
    (case readFileSync sys (pathAbs it) w of
       Inl err \<Rightarrow> Inl err
     | Inr data \<Rightarrow> JSON_parse sys data)"

definition readConfig :: "'w sys \<Rightarrow> 'w \<Rightarrow> item \<Rightarrow> object \<Rightarrow> event list \<times> object" where
  "readConfig sys w it dependencies =
    (case load sys w it of
       Inl err \<Rightarrow> ([ReadFileSync (pathAbs it), LogError err], dependencies)
     | Inr config \<Rightarrow>
         (case merge config dependencies of
            (dependencies, None) \<Rightarrow> ([ReadFileSync (pathAbs it)], dependencies)
          | (dependencies, Some err) \<Rightarrow>
              ([ReadFileSync (pathAbs it), LogError err], dependencies)))"

definition getDependencies :: "'w sys \<Rightarrow> simply \<Rightarrow> 'w \<Rightarrow> event list \<times> object" where
  "getDependencies sys self w =
    (let items = getConfig sys (directory self) w
     in case forEach (readConfig sys w) items empty_object of
          (t, dependencies) \<Rightarrow> (GetConfig (directory self) # t, dependencies))"

subsection \<open>Installing\<close>

text \<open>
  The text of a value inside a template literal. An object prints as
  \<open>[object Object]\<close>, unless a property \<open>toString\<close> of its own hides the method (no
  parsed value is a function, and \<open>valueOf\<close> returns the object): then the runtime
  throws. An array prints its elements separated by commas, \<open>null\<close> as nothing.
\<close>

fun toString :: "json \<Rightarrow> error + string"
  and join :: "json list \<Rightarrow> error + string" where
  "toString JNull = Inr ''null''"
| "toString (JBool b) = Inr (if b then ''true'' else ''false'')"
| "toString (JNum t) = Inr t"
| "toString (JStr s) = Inr s"
| "toString (JObj ps) =
    (if ''toString'' \<in> fst ` set ps then Inl TypeError else Inr ''[object Object]'')"
| "toString (JArr xs) = join xs"
| "join [] = Inr []"
| "join (x # xs) =
    (case (if x = JNull then Inr [] else toString x) of
       Inl err \<Rightarrow> Inl err
     | Inr s \<Rightarrow>
         (if xs = [] then Inr s
          else case join xs of Inl err \<Rightarrow> Inl err | Inr r \<Rightarrow> Inr (s @ '','' @ r)))"

definition npm_command :: "string \<Rightarrow> string \<times> json \<Rightarrow> error + string" where
  "npm_command suffix kv =
    (case toString (snd kv) of
       Inl err \<Rightarrow> Inl err
     | Inr v \<Rightarrow> Inr (''npm i '' @ fst kv @ ''@'' @ v @ suffix))"

definition installItem :: "'w sys \<Rightarrow> string \<Rightarrow> string \<times> json \<Rightarrow> 'w \<Rightarrow> event list \<times> 'w" where
  "installItem sys suffix kv w =
    (case npm_command suffix kv of
       Inl err \<Rightarrow> ([LogError err], w)
     | Inr command \<Rightarrow>
         (case execSync sys command w of
            (Inr output, w') \<Rightarrow>
              ([Log command, ExecSync command] @ (if output \<noteq> [] then [Log output] else []), w')
          | (Inl err, w') \<Rightarrow> ([Log command, ExecSync command, LogError err], w')))"

definition install :: "'w sys \<Rightarrow> simply \<Rightarrow> bool \<Rightarrow> 'w \<Rightarrow> event list \<times> 'w" where
  "install sys self save w =
    (let suffix = (if save then '' -D'' else [])
     in case getDependencies sys self w of
          (t0, dependencies) \<Rightarrow>
            (case forEach (installItem sys suffix) (own_entries (props dependencies)) w of
               (t, w') \<Rightarrow> (Log ''Installing task dependencies...'' # t0 @ t, w')))"

subsection \<open>What the config files declare\<close>

text \<open>
  For the statements about the aggregate: the pairs that one of the two blocks of
  \<open>_getDependencies\<close> assigns, the pairs a parsed config file declares (those of
  \<open>dependencies\<close> first, then those of \<open>devDependencies\<close>), the pairs a config entry
  contributes (none when it cannot be read or parsed), and the commands of \<open>install\<close>
  for a list of pairs.
\<close>

definition visited :: "json option \<Rightarrow> (string \<times> json) list" where
  "visited f = (case f of None \<Rightarrow> [] | Some v \<Rightarrow> if truthy f then entries v else [])"

definition declared :: "json \<Rightarrow> (string \<times> json) list" where
  "declared config =
    (case config of
       JObj ps \<Rightarrow> visited (map_of ps ''dependencies'') @ visited (map_of ps ''devDependencies'')
     | _ \<Rightarrow> [])"

definition contributions :: "'w sys \<Rightarrow> 'w \<Rightarrow> item \<Rightarrow> (string \<times> json) list" where
  "contributions sys w it =
    (case load sys w it of Inl err \<Rightarrow> [] | Inr config \<Rightarrow> declared config)"

definition npm_commands :: "string \<Rightarrow> (string \<times> json) list \<Rightarrow> string list" where
  "npm_commands suffix kvs =
    concat (map (\<lambda>kv. case npm_command suffix kv of Inl err \<Rightarrow> [] | Inr c \<Rightarrow> [c]) kvs)"

subsection \<open>What a list of task names is to run\<close>

text \<open>
  For the statement about \<open>run\<close>, a second description, written from the words of the
  spec and not from the code: the names are taken in order; a name that is the path of no
  entry of the catalog runs nothing; for any other name the members of the first entry of
  that path are scanned, and the command of every script and binary among them is run, in
  the order of the scan. The state in which the next name is resolved is the one that
  these commands, run one after the other, have left.
\<close>

definition after_commands :: "'w sys \<Rightarrow> string list \<Rightarrow> 'w \<Rightarrow> 'w" where
  "after_commands sys cs w = foldl (\<lambda>w c. snd (execSync sys c w)) w cs"

fun expected_commands :: "'w sys \<Rightarrow> simply \<Rightarrow> string list \<Rightarrow> 'w \<Rightarrow> string list" where
  "expected_commands sys self [] w = []"
| "expected_commands sys self (n # ns) w =
    (case filter (\<lambda>t. path t = n) (getTasks sys (directory self) w) of
       [] \<Rightarrow> expected_commands sys self ns w
     | g # gs \<Rightarrow>
         (let cs = map (\<lambda>m. if type m = ''script'' then ''node '' @ pathAbs m else pathAbs m)
                     (filter (\<lambda>m. type m = ''script'' \<or> type m = ''binary'')
                        (scanTasksDir sys (directory self) (path g) w))
          in cs @ expected_commands sys self ns (after_commands sys cs w)))"

subsection \<open>The classification of the helper module\<close>

text \<open>
  Modelled from the spec: the classification by extension that \<open>scanTasksDir\<close> of the
  helper module performs (\<open>src/lib/helper.js\<close> is not among the sources). An extension
  of the binary set makes a \<open>binary\<close>, else one of the script set a \<open>script\<close>, else one
  of the config set a \<open>config\<close>, and everything else is \<open>other\<close>. The spec names the
  kinds; \<open>Simply.js\<close> compares \<open>item.type\<close> with the strings \<open>script\<close> and
  \<open>binary\<close>.
\<close>

definition classify :: "string list \<Rightarrow> string list \<Rightarrow> string list \<Rightarrow> string \<Rightarrow> string" where
  "classify binary script config ext =
    (if ext \<in> set binary then ''binary''
     else if ext \<in> set script then ''script''
     else if ext \<in> set config then ''config''
     else ''other'')"

text \<open>
  Modelled from the spec: the extension of a file name of the layout
  \<open>item.ext\<close>, which the helper module computes. It is the text after the last dot,
  and empty for a name with no dot.
\<close>

definition extname :: "string \<Rightarrow> string" where
  "extname name =
    (if CHR ''.'' \<in> set name then rev (takeWhile (\<lambda>c. c \<noteq> CHR ''.'') (rev name)) else [])"

subsection \<open>The shell between \<open>execSync\<close> and the program\<close>

text \<open>
  \<open>execSync(command)\<close> hands the command line to a shell, which splits it into words at
  blanks: the first word is the program, the others are its arguments. This is all the
  shell does with a line of letters, digits, \<open>/\<close>, \<open>.\<close>, \<open>_\<close>, \<open>-\<close> and blanks; a line
  with any other character is left uninterpreted here (\<open>None\<close>).
\<close>

definition shell_plain :: "char \<Rightarrow> bool" where
  "shell_plain c =
    (c \<in> set ''abcdefghijklmnopqrstuvwxyzABCDEFGHIJKLMNOPQRSTUVWXYZ0123456789/._-'')"

fun split_words :: "string \<Rightarrow> string \<Rightarrow> string list" where
  "split_words word [] = (if word = [] then [] else [word])"
| "split_words word (c # cs) =
    (if c = CHR '' '' then (if word = [] then [] else [word]) @ split_words [] cs
     else split_words (word @ [c]) cs)"

definition shell_words :: "string \<Rightarrow> string list option" where
  "shell_words command =
    (if list_all (\<lambda>c. c = CHR '' '' \<or> shell_plain c) command
     then Some (split_words [] command) else None)"

subsection \<open>A small installation\<close>

text \<open>
  A concrete machine for the examples: the task folder \<open>/srv/tasks\<close> with the groups
  \<open>build\<close> and \<open>deploy\<close>. The state counts the commands run so far. The script
  \<open>b.js\<close> of \<open>deploy\<close> exits with code 1, and so does every \<open>npm\<close> command for the
  package \<open>y\<close>; every other command prints \<open>ok\<close>. There are four config files; the
  one of \<open>build\<close> cannot be parsed.
\<close>

definition a_js :: item where
  "a_js = \<lparr>path = ''deploy/a.js'', pathAbs = ''/srv/tasks/deploy/a.js'', type = ''script''\<rparr>"

definition b_js :: item where
  "b_js = \<lparr>path = ''deploy/b.js'', pathAbs = ''/srv/tasks/deploy/b.js'', type = ''script''\<rparr>"

definition config_json :: item where
  "config_json =
    \<lparr>path = ''deploy/config.json'', pathAbs = ''/srv/tasks/deploy/config.json'',
       type = ''config''\<rparr>"

definition run_file :: item where
  "run_file = \<lparr>path = ''deploy/run'', pathAbs = ''/srv/tasks/deploy/run'', type = ''binary''\<rparr>"

definition deploy :: item where
  "deploy = \<lparr>path = ''deploy'', pathAbs = ''/srv/tasks/deploy'', type = ''group''\<rparr>"

definition build :: item where
  "build = \<lparr>path = ''build'', pathAbs = ''/srv/tasks/build'', type = ''group''\<rparr>"

definition groupA_config :: item where
  "groupA_config =
    \<lparr>path = ''groupA/config.json'', pathAbs = ''/srv/tasks/groupA/config.json'',
       type = ''config''\<rparr>"

definition build_config :: item where
  "build_config =
    \<lparr>path = ''build/config.json'', pathAbs = ''/srv/tasks/build/config.json'',
       type = ''config''\<rparr>"

definition groupB_config :: item where
  "groupB_config =
    \<lparr>path = ''groupB/config.json'', pathAbs = ''/srv/tasks/groupB/config.json'',
       type = ''config''\<rparr>"

definition configA :: json where
  "configA = JObj [(''dependencies'', JObj [(''x'', JStr ''1.0.0''), (''y'', JStr ''3.1.0'')])]"

definition configB :: json where
  "configB =
    JObj [(''dependencies'', JObj [(''x'', JStr ''2.0.0''), (''z'', JStr ''0.1.0'')]),
          (''devDependencies'', JObj [(''z'', JStr ''0.2.0'')])]"

definition configD :: json where
  "configD = JObj [(''devDependencies'', JObj [(''y'', JStr ''3.2.0'')])]"

definition machine :: "nat sys" where
  "machine =
    \<lparr>getTasks = (\<lambda>d w. [build, deploy]),
      getConfig = (\<lambda>d w. [groupA_config, build_config, groupB_config, config_json]),
      scanTasksDir = (\<lambda>d p w.
        if p = ''deploy'' then [a_js, b_js, config_json, run_file] else []),
      execSync = (\<lambda>c w.
        (if c = ''node /srv/tasks/deploy/b.js'' \<or> take 8 c = ''npm i y@''
         then Inl (Failure ''exit 1'') else Inr ''ok'', Suc w)),
      readFileSync = (\<lambda>p w.
        if p = ''/srv/tasks/groupA/config.json'' then Inr ''A''
        else if p = ''/srv/tasks/groupB/config.json'' then Inr ''B''
        else if p = ''/srv/tasks/build/config.json'' then Inr ''{''
        else if p = ''/srv/tasks/deploy/config.json'' then Inr ''D''
        else Inl (Failure ''ENOENT'')),
      JSON_parse = (\<lambda>data.
        if data = ''A'' then Inr configA
        else if data = ''B'' then Inr configB
        else if data = ''D'' then Inr configD
        else Inl (Failure ''SyntaxError'')),
      path_join = (\<lambda>a b. a @ ''/'' @ b),
      process_cwd = ''/srv''\<rparr>"

definition runner :: simply where
  "runner = \<lparr>directory = ''/srv/tasks''\<rparr>"

section \<open>Properties of the loops and of the trace\<close>

lemma forEach_append:
  "forEach f (xs @ ys) s =
    (case forEach f xs s of (t1, s1) \<Rightarrow>
       (case forEach f ys s1 of (t2, s2) \<Rightarrow> (t1 @ t2, s2)))"
  by (induction xs arbitrary: s) (auto split: prod.splits)

lemma invocations_append: "invocations (a @ b) = invocations a @ invocations b"
  by (induction a rule: invocations.induct) simp_all

lemma lookups_append: "lookups (a @ b) = lookups a + lookups b"
  by (induction a rule: lookups.induct) simp_all

lemma invocations_execItem:
  "invocations (fst (execItem sys it w)) = (case command_of it of None \<Rightarrow> [] | Some c \<Rightarrow> [c])"
  by (simp add: execItem_def split: option.splits prod.splits sum.splits)

lemma invocations_forEach_execItem:
  "invocations (fst (forEach (execItem sys) items w)) = List.map_filter command_of items"
proof (induction items arbitrary: w)
  case Nil
  show ?case by (simp add: List.map_filter_simps)
next
  case (Cons it items)
  obtain t1 w1 where a: "execItem sys it w = (t1, w1)" by (cases "execItem sys it w")
  obtain t2 w2 where b: "forEach (execItem sys) items w1 = (t2, w2)"
    by (cases "forEach (execItem sys) items w1")
  have "invocations t1 = (case command_of it of None \<Rightarrow> [] | Some c \<Rightarrow> [c])"
    using invocations_execItem [of sys it w] a by simp
  moreover have "invocations t2 = List.map_filter command_of items"
    using Cons.IH [of w1] b by simp
  ultimately show ?case
    using a b by (simp add: invocations_append List.map_filter_simps split: option.splits)
qed

lemma map_filter_command_of:
  "List.map_filter command_of items =
    map (\<lambda>it. if type it = ''script'' then ''node '' @ pathAbs it else pathAbs it)
      (filter (\<lambda>it. type it = ''script'' \<or> type it = ''binary'') items)"
  by (induction items) (simp_all add: List.map_filter_simps command_of_def)

lemma execItem_failure:
  assumes "command_of m = Some c" and "execSync sys c w = (Inl err, w')"
  shows "execItem sys m w = ([Log (''- '' @ pathAbs m), ExecSync c, LogError err], w')"
  using assms by (simp add: execItem_def)

lemma getTask_None:
  "getTask sys self task w = None \<longleftrightarrow>
    (\<forall>t \<in> set (getTasks sys (directory self) w). path t \<noteq> task)"
  by (auto simp add: getTask_def find_None_iff)

lemma lookups_forEach_execItem: "lookups (fst (forEach (execItem sys) items w)) = 0"
proof (induction items arbitrary: w)
  case Nil
  show ?case by simp
next
  case (Cons it items)
  have "lookups (fst (execItem sys it w)) = 0"
    by (simp add: execItem_def split: option.splits prod.splits sum.splits)
  then show ?case
    using Cons.IH by (simp add: lookups_append split_beta)
qed

lemma lookups_runTask: "lookups (fst (runTask sys self task w)) = 1"
  by (simp add: runTask_def execTask_def Let_def split_beta lookups_forEach_execItem
      split: option.splits)

lemma lookups_forEach_runTask:
  "lookups (fst (forEach (runTask sys self) names w)) = length names"
proof (induction names arbitrary: w)
  case Nil
  show ?case by simp
next
  case (Cons n names)
  show ?case
    using lookups_runTask [of sys self n w] Cons.IH
    by (simp add: lookups_append split_beta)
qed

text \<open>
  A command line of plain characters: the shell's words are the blank-separated pieces,
  and a path of plain characters stays one word.
\<close>

lemma split_words_plain:
  "list_all shell_plain p \<Longrightarrow> split_words word p = (if word @ p = [] then [] else [word @ p])"
proof (induction p arbitrary: word)
  case Nil
  show ?case by simp
next
  case (Cons c p)
  have "c \<noteq> CHR '' ''"
    using Cons.prems by (auto simp add: shell_plain_def)
  then show ?case
    using Cons.IH [of "word @ [c]"] Cons.prems by simp
qed

lemma shell_words_node:
  assumes "list_all shell_plain p" and "p \<noteq> []"
  shows "shell_words (''node '' @ p) = Some [''node'', p]"
proof -
  have "list_all (\<lambda>c. c = CHR '' '' \<or> shell_plain c) p"
    using assms(1) by (simp add: list_all_iff)
  then have "shell_words (''node '' @ p) = Some (''node'' # split_words [] p)"
    by (simp add: shell_words_def shell_plain_def)
  then show ?thesis
    using assms by (simp add: split_words_plain)
qed

lemma shell_words_path:
  assumes "list_all shell_plain p" and "p \<noteq> []"
  shows "shell_words p = Some [p]"
proof -
  have "list_all (\<lambda>c. c = CHR '' '' \<or> shell_plain c) p"
    using assms(1) by (simp add: list_all_iff)
  then show ?thesis
    using assms by (simp add: shell_words_def split_words_plain)
qed

section \<open>The claims about running tasks\<close>

text \<open>
  C1. A member of a group whose execution fails does not end the loop over the members.
  Let the scan of the group return the members \<open>xs\<close>, then \<open>m\<close>, then \<open>ys\<close>, let \<open>m\<close>
  have the command \<open>c\<close> (it is a script or a binary), and let \<open>execSync\<close> throw \<open>err\<close> on
  \<open>c\<close> in the state the members \<open>xs\<close> have left. Then the trace of the task is the scan,
  the trace of \<open>xs\<close>, the three events of \<open>m\<close> (its path is printed, its command is run,
  the error is caught and printed), and after them the whole trace of the members \<open>ys\<close>,
  run from the state the failed command left. The commands run are those of \<open>xs\<close>, then
  \<open>c\<close>, then those of every script and binary of \<open>ys\<close>, in the order of the scan.
\<close>

theorem execTask_continues_after_failure:
  assumes "scanTasksDir sys (directory self) (path task) w = xs @ m # ys"
    and "command_of m = Some c"
    and "forEach (execItem sys) xs w = (t1, w1)"
    and "execSync sys c w1 = (Inl err, w2)"
  shows "fst (execTask sys self task w) =
           ScanTasksDir (directory self) (path task) # t1
             @ [Log (''- '' @ pathAbs m), ExecSync c, LogError err]
             @ fst (forEach (execItem sys) ys w2)
         \<and> invocations (fst (execTask sys self task w)) =
             List.map_filter command_of xs @ c # List.map_filter command_of ys"
proof -
  have m: "execItem sys m w1 = ([Log (''- '' @ pathAbs m), ExecSync c, LogError err], w2)"
    using assms(2,4) by (rule execItem_failure)
  have "forEach (execItem sys) (xs @ m # ys) w =
          (t1 @ [Log (''- '' @ pathAbs m), ExecSync c, LogError err]
             @ fst (forEach (execItem sys) ys w2), snd (forEach (execItem sys) ys w2))"
    using assms(3) m by (simp add: forEach_append split_beta)
  then have trace: "fst (execTask sys self task w) =
           ScanTasksDir (directory self) (path task) # t1
             @ [Log (''- '' @ pathAbs m), ExecSync c, LogError err]
             @ fst (forEach (execItem sys) ys w2)"
    using assms(1) by (simp add: execTask_def)
  have "invocations t1 = List.map_filter command_of xs"
    using invocations_forEach_execItem [of sys xs w] assms(3) by simp
  then show ?thesis
    using trace by (simp add: invocations_append invocations_forEach_execItem)
qed

theorem execTask_continues_after_failure_witness:
  "scanTasksDir machine (directory runner) (path deploy) 0 = [a_js] @ b_js # [config_json, run_file]
   \<and> command_of b_js = Some ''node /srv/tasks/deploy/b.js''
   \<and> forEach (execItem machine) [a_js] 0 =
       ([Log ''- /srv/tasks/deploy/a.js'', ExecSync ''node /srv/tasks/deploy/a.js'', Log ''ok''], 1)
   \<and> execSync machine ''node /srv/tasks/deploy/b.js'' 1 = (Inl (Failure ''exit 1''), 2)
   \<and> fst (execTask machine runner deploy 0) =
       [ScanTasksDir ''/srv/tasks'' ''deploy'',
        Log ''- /srv/tasks/deploy/a.js'', ExecSync ''node /srv/tasks/deploy/a.js'', Log ''ok'',
        Log ''- /srv/tasks/deploy/b.js'', ExecSync ''node /srv/tasks/deploy/b.js'',
        LogError (Failure ''exit 1''),
        Log ''- /srv/tasks/deploy/run'', ExecSync ''/srv/tasks/deploy/run'', Log ''ok'']
   \<and> invocations (fst (execTask machine runner deploy 0)) =
       [''node /srv/tasks/deploy/a.js'', ''node /srv/tasks/deploy/b.js'', ''/srv/tasks/deploy/run'']"
proof -
  have h1: "scanTasksDir machine (directory runner) (path deploy) 0
              = [a_js] @ b_js # [config_json, run_file]"
    by (simp add: machine_def deploy_def)
  have h2: "command_of b_js = Some ''node /srv/tasks/deploy/b.js''"
    by (simp add: command_of_def b_js_def)
  have h3: "forEach (execItem machine) [a_js] 0 =
       ([Log ''- /srv/tasks/deploy/a.js'', ExecSync ''node /srv/tasks/deploy/a.js'', Log ''ok''], 1)"
    by (simp add: execItem_def command_of_def a_js_def machine_def)
  have h4: "execSync machine ''node /srv/tasks/deploy/b.js'' 1 = (Inl (Failure ''exit 1''), 2)"
    by (simp add: machine_def)
  have rest: "forEach (execItem machine) [config_json, run_file] 2 =
       ([Log ''- /srv/tasks/deploy/run'', ExecSync ''/srv/tasks/deploy/run'', Log ''ok''], 3)"
    by (simp add: execItem_def command_of_def config_json_def run_file_def machine_def)
  have cmds: "List.map_filter command_of [a_js] = [''node /srv/tasks/deploy/a.js'']
      \<and> List.map_filter command_of [config_json, run_file] = [''/srv/tasks/deploy/run'']"
    by (simp add: List.map_filter_simps command_of_def a_js_def config_json_def run_file_def)
  show ?thesis
    using execTask_continues_after_failure [OF h1 h2 h3 h4] h1 h2 h3 h4 rest cmds
    by (simp add: runner_def deploy_def b_js_def)
qed

text \<open>
  C2. Running a group runs a command for exactly its members of type \<open>script\<close> or
  \<open>binary\<close>, in the order of the scan, whatever the commands return: \<open>node\<close> and the
  absolute path for a script, the absolute path for a binary. A member of any other type
  (a config file, any other file) leaves no event at all and changes nothing: it is left
  before a command is built.
\<close>

theorem execTask_invokes_scripts_and_binaries:
  "invocations (fst (execTask sys self task w)) =
     map (\<lambda>it. if type it = ''script'' then ''node '' @ pathAbs it else pathAbs it)
       (filter (\<lambda>it. type it = ''script'' \<or> type it = ''binary'')
          (scanTasksDir sys (directory self) (path task) w))
   \<and> (type m \<noteq> ''script'' \<and> type m \<noteq> ''binary'' \<longrightarrow> execItem sys m w' = ([], w'))"
proof -
  have "invocations (fst (execTask sys self task w)) =
          List.map_filter command_of (scanTasksDir sys (directory self) (path task) w)"
    using invocations_forEach_execItem [of sys "scanTasksDir sys (directory self) (path task) w" w]
    by (simp add: execTask_def Let_def split_beta)
  then show ?thesis
    by (simp add: map_filter_command_of execItem_def command_of_def)
qed

theorem execTask_invokes_scripts_and_binaries_witness:
  "invocations (fst (execTask machine runner deploy 0)) =
     [''node /srv/tasks/deploy/a.js'', ''node /srv/tasks/deploy/b.js'', ''/srv/tasks/deploy/run'']
   \<and> type config_json \<noteq> ''script'' \<and> type config_json \<noteq> ''binary''
   \<and> execItem machine config_json 7 = ([], 7)"
proof -
  have kind: "type config_json \<noteq> ''script'' \<and> type config_json \<noteq> ''binary''"
    by (simp add: config_json_def)
  have scan: "scanTasksDir machine (directory runner) (path deploy) 0
                = [a_js, b_js, config_json, run_file]"
    by (simp add: machine_def deploy_def)
  show ?thesis
    using execTask_invokes_scripts_and_binaries [of machine runner deploy 0 config_json 7] kind
    by (simp add: scan) (simp add: a_js_def b_js_def config_json_def run_file_def)
qed

text \<open>
  C3. A task name that is the path of no entry of the catalog (the comparison is the
  equality of strings): \<open>runTask\<close> reads the catalog, prints that the task was not found,
  and does nothing else. The members are not scanned, no command is run, and the state
  of the machine is the one it started in.
\<close>

theorem runTask_not_found:
  assumes "\<forall>t \<in> set (getTasks sys (directory self) w). path t \<noteq> task"
  shows "runTask sys self task w =
           ([GetTasks (directory self), Log (''Task '' @ task @ '' not found.'')], w)
         \<and> invocations (fst (runTask sys self task w)) = []"
proof -
  have "getTask sys self task w = None"
    using assms by (simp add: getTask_None)
  then show ?thesis by (simp add: runTask_def)
qed

theorem runTask_not_found_witness:
  "getTasks machine (directory runner) 0 = [build, deploy]
   \<and> path build \<noteq> ''test'' \<and> path deploy \<noteq> ''test''
   \<and> runTask machine runner ''test'' 0 =
       ([GetTasks ''/srv/tasks'', Log ''Task test not found.''], 0)
   \<and> invocations (fst (runTask machine runner ''test'' 0)) = []"
proof -
  have catalog: "getTasks machine (directory runner) 0 = [build, deploy]"
    by (simp add: machine_def)
  have names: "path build \<noteq> ''test'' \<and> path deploy \<noteq> ''test''"
    by (simp add: build_def deploy_def)
  have h: "\<forall>t \<in> set (getTasks machine (directory runner) 0). path t \<noteq> ''test''"
    using names by (simp add: catalog)
  show ?thesis
    using runTask_not_found [OF h] catalog names by (simp add: runner_def)
qed

lemma snd_execItem:
  "snd (execItem sys it w) =
     (case command_of it of None \<Rightarrow> w | Some c \<Rightarrow> snd (execSync sys c w))"
  by (simp add: execItem_def split: option.splits prod.splits sum.splits)

lemma snd_forEach_execItem:
  "snd (forEach (execItem sys) items w) = after_commands sys (List.map_filter command_of items) w"
proof (induction items arbitrary: w)
  case Nil
  show ?case by (simp add: after_commands_def List.map_filter_simps)
next
  case (Cons it items)
  show ?case
    using Cons.IH [of "snd (execItem sys it w)"]
    by (simp add: split_beta snd_execItem after_commands_def List.map_filter_simps
        split: option.splits)
qed

lemma find_filter_conv:
  "find P xs = (case filter P xs of [] \<Rightarrow> None | x # ys \<Rightarrow> Some x)"
  by (induction xs) auto

lemma invocations_runTask:
  "invocations (fst (runTask sys self n w)) =
     (case getTask sys self n w of
        None \<Rightarrow> []
      | Some g \<Rightarrow> List.map_filter command_of (scanTasksDir sys (directory self) (path g) w))"
  by (simp add: runTask_def execTask_def Let_def split_beta invocations_forEach_execItem
      split: option.splits)

lemma snd_runTask:
  "snd (runTask sys self n w) =
     (case getTask sys self n w of
        None \<Rightarrow> w
      | Some g \<Rightarrow>
          after_commands sys
            (List.map_filter command_of (scanTasksDir sys (directory self) (path g) w)) w)"
  by (simp add: runTask_def execTask_def Let_def split_beta snd_forEach_execItem
      split: option.splits)

lemma invocations_forEach_runTask:
  "invocations (fst (forEach (runTask sys self) names w)) = expected_commands sys self names w"
proof (induction names arbitrary: w)
  case Nil
  show ?case by simp
next
  case (Cons n names)
  show ?case
  proof (cases "filter (\<lambda>t. path t = n) (getTasks sys (directory self) w)")
    case Nil
    then have "getTask sys self n w = None"
      by (simp add: getTask_def find_filter_conv)
    then show ?thesis
      using Nil Cons.IH [of w]
      by (simp add: split_beta invocations_append invocations_runTask snd_runTask)
  next
    case (Cons g gs)
    then have "getTask sys self n w = Some g"
      by (simp add: getTask_def find_filter_conv)
    then show ?thesis
      using Cons Cons.IH
      by (simp add: split_beta invocations_append invocations_runTask snd_runTask
          map_filter_command_of Let_def)
  qed
qed

text \<open>
  C4. \<open>run\<close> resolves and executes the names in the order given, one after the other,
  and nothing that happens for one name keeps a later name from its turn. The commands
  that \<open>run\<close> hands to \<open>execSync\<close> are, for every list of names and every behaviour of
  the commands, those of the description \<open>expected_commands\<close>: for each name in order,
  nothing when the catalog has no entry of that path, and else the commands of the scripts
  and binaries of its group, in the order of the scan. The catalog is read once for each
  name. In detail, let the list be the names \<open>ns1\<close>, then \<open>n\<close>, then \<open>ns2\<close>, and let the
  names \<open>ns1\<close> have left the trace \<open>t1\<close> and the state \<open>w1\<close>, whatever happened for them.
  When the catalog has no entry of path \<open>n\<close>, the trace goes on with the two events of
  the name not found and then with the run of \<open>ns2\<close>, from the same state. When its first
  entry of path \<open>n\<close> is \<open>g\<close>, the trace goes on with the announcement, the scan of \<open>g\<close>,
  the execution of every member of \<open>g\<close> by \<open>_execItem\<close>, and then with the run of \<open>ns2\<close>
  from the state the members have left.
\<close>

theorem run_attempts_every_name:
  assumes "names = ns1 @ n # ns2"
    and "forEach (runTask sys self) ns1 w = (t1, w1)"
    and "items = scanTasksDir sys (directory self) (path g) w1"
  shows "invocations (fst (run sys self (Some names) w)) = expected_commands sys self names w
         \<and> lookups (fst (run sys self (Some names) w)) = length names
         \<and> (filter (\<lambda>t. path t = n) (getTasks sys (directory self) w1) = [] \<longrightarrow>
              fst (run sys self (Some names) w) =
                t1 @ [GetTasks (directory self), Log (''Task '' @ n @ '' not found.'')]
                   @ fst (forEach (runTask sys self) ns2 w1))
         \<and> (filter (\<lambda>t. path t = n) (getTasks sys (directory self) w1) = g # gs \<longrightarrow>
              fst (run sys self (Some names) w) =
                t1 @ [GetTasks (directory self),
                      Log (''Running task '' @ [CHR 0x22] @ n @ [CHR 0x22] @ '':''),
                      ScanTasksDir (directory self) (path g)]
                   @ fst (forEach (execItem sys) items w1)
                   @ fst (forEach (runTask sys self) ns2 (snd (forEach (execItem sys) items w1))))"
proof -
  have commands: "invocations (fst (run sys self (Some names) w)) =
      expected_commands sys self names w"
    using invocations_forEach_runTask [of sys self names w]
    by (simp add: run_def split_beta invocations_append)
  have count: "lookups (fst (run sys self (Some names) w)) = length names"
    using lookups_forEach_runTask [of sys self names w] assms(1)
    by (simp add: run_def lookups_append split_beta)
  have split: "fst (run sys self (Some names) w) =
           t1 @ fst (runTask sys self n w1)
              @ fst (forEach (runTask sys self) ns2 (snd (runTask sys self n w1)))"
    using assms(1,2) by (simp add: run_def forEach_append split_beta)
  have missing: "fst (run sys self (Some names) w) =
                t1 @ [GetTasks (directory self), Log (''Task '' @ n @ '' not found.'')]
                   @ fst (forEach (runTask sys self) ns2 w1)"
    if "filter (\<lambda>t. path t = n) (getTasks sys (directory self) w1) = []"
  proof -
    have "getTask sys self n w1 = None"
      using that by (simp add: getTask_def find_filter_conv)
    then show ?thesis
      using split by (simp add: runTask_def)
  qed
  have found: "fst (run sys self (Some names) w) =
                t1 @ [GetTasks (directory self),
                      Log (''Running task '' @ [CHR 0x22] @ n @ [CHR 0x22] @ '':''),
                      ScanTasksDir (directory self) (path g)]
                   @ fst (forEach (execItem sys) items w1)
                   @ fst (forEach (runTask sys self) ns2 (snd (forEach (execItem sys) items w1)))"
    if "filter (\<lambda>t. path t = n) (getTasks sys (directory self) w1) = g # gs"
  proof -
    have "getTask sys self n w1 = Some g"
      using that by (simp add: getTask_def find_filter_conv)
    then show ?thesis
      using split assms(3) by (simp add: runTask_def execTask_def Let_def split_beta)
  qed
  show ?thesis
    using commands count missing found by blast
qed

theorem run_attempts_every_name_witness:
  "[''build'', ''test'', ''deploy''] = [''build''] @ ''test'' # [''deploy'']
   \<and> forEach (runTask machine runner) [''build''] 0 =
       ([GetTasks ''/srv/tasks'', Log (''Running task '' @ [CHR 0x22] @ ''build'' @ [CHR 0x22] @ '':''),
         ScanTasksDir ''/srv/tasks'' ''build''], 0)
   \<and> filter (\<lambda>t. path t = ''test'') (getTasks machine (directory runner) 0) = []
   \<and> fst (run machine runner (Some [''build'', ''test'', ''deploy'']) 0) =
       [GetTasks ''/srv/tasks'', Log (''Running task '' @ [CHR 0x22] @ ''build'' @ [CHR 0x22] @ '':''),
        ScanTasksDir ''/srv/tasks'' ''build'',
        GetTasks ''/srv/tasks'', Log ''Task test not found.'']
       @ fst (runTask machine runner ''deploy'' 0)
   \<and> [''build'', ''test'', ''deploy''] = [''build'', ''test''] @ ''deploy'' # []
   \<and> forEach (runTask machine runner) [''build'', ''test''] 0 =
       ([GetTasks ''/srv/tasks'', Log (''Running task '' @ [CHR 0x22] @ ''build'' @ [CHR 0x22] @ '':''),
         ScanTasksDir ''/srv/tasks'' ''build'',
         GetTasks ''/srv/tasks'', Log ''Task test not found.''], 0)
   \<and> filter (\<lambda>t. path t = ''deploy'') (getTasks machine (directory runner) 0) = deploy # []
   \<and> [a_js, b_js, config_json, run_file] = scanTasksDir machine (directory runner) (path deploy) 0
   \<and> fst (run machine runner (Some [''build'', ''test'', ''deploy'']) 0) =
       [GetTasks ''/srv/tasks'', Log (''Running task '' @ [CHR 0x22] @ ''build'' @ [CHR 0x22] @ '':''),
        ScanTasksDir ''/srv/tasks'' ''build'',
        GetTasks ''/srv/tasks'', Log ''Task test not found.'',
        GetTasks ''/srv/tasks'', Log (''Running task '' @ [CHR 0x22] @ ''deploy'' @ [CHR 0x22] @ '':''),
        ScanTasksDir ''/srv/tasks'' ''deploy'',
        Log ''- /srv/tasks/deploy/a.js'', ExecSync ''node /srv/tasks/deploy/a.js'', Log ''ok'',
        Log ''- /srv/tasks/deploy/b.js'', ExecSync ''node /srv/tasks/deploy/b.js'',
        LogError (Failure ''exit 1''),
        Log ''- /srv/tasks/deploy/run'', ExecSync ''/srv/tasks/deploy/run'', Log ''ok'']
   \<and> invocations (fst (run machine runner (Some [''build'', ''test'', ''deploy'']) 0)) =
       [''node /srv/tasks/deploy/a.js'', ''node /srv/tasks/deploy/b.js'', ''/srv/tasks/deploy/run'']
   \<and> expected_commands machine runner [''build'', ''test'', ''deploy''] 0 =
       [''node /srv/tasks/deploy/a.js'', ''node /srv/tasks/deploy/b.js'', ''/srv/tasks/deploy/run'']
   \<and> lookups (fst (run machine runner (Some [''build'', ''test'', ''deploy'']) 0)) = 3"
proof -
  have a1: "[''build'', ''test'', ''deploy''] = [''build''] @ ''test'' # [''deploy'']"
    by simp
  have a2: "forEach (runTask machine runner) [''build''] 0 =
       ([GetTasks ''/srv/tasks'', Log (''Running task '' @ [CHR 0x22] @ ''build'' @ [CHR 0x22] @ '':''),
         ScanTasksDir ''/srv/tasks'' ''build''], 0)"
    by (simp add: runTask_def getTask_def execTask_def machine_def runner_def build_def)
  have a3: "filter (\<lambda>t. path t = ''test'') (getTasks machine (directory runner) 0) = []"
    by (simp add: machine_def build_def deploy_def)
  have b1: "[''build'', ''test'', ''deploy''] = [''build'', ''test''] @ ''deploy'' # []"
    by simp
  have b2: "forEach (runTask machine runner) [''build'', ''test''] 0 =
       ([GetTasks ''/srv/tasks'', Log (''Running task '' @ [CHR 0x22] @ ''build'' @ [CHR 0x22] @ '':''),
         ScanTasksDir ''/srv/tasks'' ''build'',
         GetTasks ''/srv/tasks'', Log ''Task test not found.''], 0)"
    by (simp add: runTask_def getTask_def execTask_def machine_def runner_def build_def deploy_def)
  have b3: "filter (\<lambda>t. path t = ''deploy'') (getTasks machine (directory runner) 0) = deploy # []"
    by (simp add: machine_def build_def deploy_def)
  have b4: "[a_js, b_js, config_json, run_file]
              = scanTasksDir machine (directory runner) (path deploy) 0"
    by (simp add: machine_def deploy_def)
  have members: "forEach (execItem machine) [a_js, b_js, config_json, run_file] 0 =
       ([Log ''- /srv/tasks/deploy/a.js'', ExecSync ''node /srv/tasks/deploy/a.js'', Log ''ok'',
         Log ''- /srv/tasks/deploy/b.js'', ExecSync ''node /srv/tasks/deploy/b.js'',
         LogError (Failure ''exit 1''),
         Log ''- /srv/tasks/deploy/run'', ExecSync ''/srv/tasks/deploy/run'', Log ''ok''], 3)"
    by (simp add: execItem_def command_of_def a_js_def b_js_def config_json_def run_file_def
        machine_def)
  note r1 = run_attempts_every_name [OF a1 a2 b4, of "[]"]
  note r2 = run_attempts_every_name [OF b1 b2 b4, of "[]"]
  have after_test: "fst (run machine runner (Some [''build'', ''test'', ''deploy'']) 0) =
       [GetTasks ''/srv/tasks'', Log (''Running task '' @ [CHR 0x22] @ ''build'' @ [CHR 0x22] @ '':''),
        ScanTasksDir ''/srv/tasks'' ''build'']
       @ [GetTasks (directory runner), Log (''Task '' @ ''test'' @ '' not found.'')]
       @ fst (forEach (runTask machine runner) [''deploy''] 0)"
    using r1 a3 by blast
  have after_test': "fst (run machine runner (Some [''build'', ''test'', ''deploy'']) 0) =
       [GetTasks ''/srv/tasks'', Log (''Running task '' @ [CHR 0x22] @ ''build'' @ [CHR 0x22] @ '':''),
        ScanTasksDir ''/srv/tasks'' ''build'',
        GetTasks ''/srv/tasks'', Log ''Task test not found.'']
       @ fst (runTask machine runner ''deploy'' 0)"
    unfolding after_test by (simp add: runner_def split_beta)
  have trace: "fst (run machine runner (Some [''build'', ''test'', ''deploy'']) 0) =
       [GetTasks ''/srv/tasks'', Log (''Running task '' @ [CHR 0x22] @ ''build'' @ [CHR 0x22] @ '':''),
        ScanTasksDir ''/srv/tasks'' ''build'',
        GetTasks ''/srv/tasks'', Log ''Task test not found.'']
       @ [GetTasks (directory runner),
          Log (''Running task '' @ [CHR 0x22] @ ''deploy'' @ [CHR 0x22] @ '':''),
          ScanTasksDir (directory runner) (path deploy)]
       @ fst (forEach (execItem machine) [a_js, b_js, config_json, run_file] 0)
       @ fst (forEach (runTask machine runner) []
                (snd (forEach (execItem machine) [a_js, b_js, config_json, run_file] 0)))"
    using r2 b3 by blast
  have commands: "invocations (fst (run machine runner (Some [''build'', ''test'', ''deploy'']) 0))
      = expected_commands machine runner [''build'', ''test'', ''deploy''] 0"
    using r2 by blast
  have count: "lookups (fst (run machine runner (Some [''build'', ''test'', ''deploy'']) 0))
      = length [''build'', ''test'', ''deploy'']"
    using r2 by blast
  have trace': "fst (run machine runner (Some [''build'', ''test'', ''deploy'']) 0) =
       [GetTasks ''/srv/tasks'', Log (''Running task '' @ [CHR 0x22] @ ''build'' @ [CHR 0x22] @ '':''),
        ScanTasksDir ''/srv/tasks'' ''build'',
        GetTasks ''/srv/tasks'', Log ''Task test not found.'',
        GetTasks ''/srv/tasks'', Log (''Running task '' @ [CHR 0x22] @ ''deploy'' @ [CHR 0x22] @ '':''),
        ScanTasksDir ''/srv/tasks'' ''deploy'',
        Log ''- /srv/tasks/deploy/a.js'', ExecSync ''node /srv/tasks/deploy/a.js'', Log ''ok'',
        Log ''- /srv/tasks/deploy/b.js'', ExecSync ''node /srv/tasks/deploy/b.js'',
        LogError (Failure ''exit 1''),
        Log ''- /srv/tasks/deploy/run'', ExecSync ''/srv/tasks/deploy/run'', Log ''ok'']"
    unfolding trace members by (simp add: runner_def deploy_def)
  have cmds: "invocations (fst (run machine runner (Some [''build'', ''test'', ''deploy'']) 0)) =
       [''node /srv/tasks/deploy/a.js'', ''node /srv/tasks/deploy/b.js'', ''/srv/tasks/deploy/run'']"
    unfolding trace' by simp
  have expected: "expected_commands machine runner [''build'', ''test'', ''deploy''] 0 =
       [''node /srv/tasks/deploy/a.js'', ''node /srv/tasks/deploy/b.js'', ''/srv/tasks/deploy/run'']"
    using commands cmds by simp
  have first: "[''build'', ''test'', ''deploy''] = [''build''] @ ''test'' # [''deploy'']
      \<and> forEach (runTask machine runner) [''build''] 0 =
       ([GetTasks ''/srv/tasks'', Log (''Running task '' @ [CHR 0x22] @ ''build'' @ [CHR 0x22] @ '':''),
         ScanTasksDir ''/srv/tasks'' ''build''], 0)
      \<and> filter (\<lambda>t. path t = ''test'') (getTasks machine (directory runner) 0) = []
      \<and> fst (run machine runner (Some [''build'', ''test'', ''deploy'']) 0) =
       [GetTasks ''/srv/tasks'', Log (''Running task '' @ [CHR 0x22] @ ''build'' @ [CHR 0x22] @ '':''),
        ScanTasksDir ''/srv/tasks'' ''build'',
        GetTasks ''/srv/tasks'', Log ''Task test not found.'']
       @ fst (runTask machine runner ''deploy'' 0)"
    using a1 a2 a3 after_test' by blast
  have second: "[''build'', ''test'', ''deploy''] = [''build'', ''test''] @ ''deploy'' # []
      \<and> forEach (runTask machine runner) [''build'', ''test''] 0 =
       ([GetTasks ''/srv/tasks'', Log (''Running task '' @ [CHR 0x22] @ ''build'' @ [CHR 0x22] @ '':''),
         ScanTasksDir ''/srv/tasks'' ''build'',
         GetTasks ''/srv/tasks'', Log ''Task test not found.''], 0)
      \<and> filter (\<lambda>t. path t = ''deploy'') (getTasks machine (directory runner) 0) = deploy # []
      \<and> [a_js, b_js, config_json, run_file]
          = scanTasksDir machine (directory runner) (path deploy) 0"
    using b1 b2 b3 b4 by blast
  have third: "lookups (fst (run machine runner (Some [''build'', ''test'', ''deploy'']) 0)) = 3"
    using count by simp
  show ?thesis
    using first second trace' cmds expected third by blast
qed

text \<open>
  C5. The claim: a script is run as the interpreter with exactly one argument, its
  absolute path, and a binary as the program at its absolute path. \<open>_execItem\<close> builds
  the command line \<open>'node ' + item.pathAbs\<close> with no quoting and hands it to a shell. For
  a path of plain characters the shell reads it as the claim says (lemma
  \<open>shell_words_node\<close>, and \<open>shell_words_path\<close> for a binary). For the script
  \<open>/srv/my tasks/build/setup.js\<close>, whose folder has a blank in its name, the shell starts
  \<open>node\<close> with two arguments, \<open>/srv/my\<close> and \<open>tasks/build/setup.js\<close>, neither of which
  is the script; for the binary \<open>run\<close> of the same folder the program started is
  \<open>/srv/my\<close>.
\<close>

theorem execItem_path_with_blank:
  "invocations (fst (execItem sys
      \<lparr>path = ''build/setup.js'', pathAbs = ''/srv/my tasks/build/setup.js'',
         type = ''script''\<rparr> w))
     = [''node /srv/my tasks/build/setup.js'']
   \<and> shell_words ''node /srv/my tasks/build/setup.js''
     = Some [''node'', ''/srv/my'', ''tasks/build/setup.js'']
   \<and> invocations (fst (execItem sys
      \<lparr>path = ''build/run'', pathAbs = ''/srv/my tasks/build/run'', type = ''binary''\<rparr> w))
     = [''/srv/my tasks/build/run'']
   \<and> shell_words ''/srv/my tasks/build/run'' = Some [''/srv/my'', ''tasks/build/run'']"
  by (simp add: invocations_execItem command_of_def shell_words_def shell_plain_def)

text \<open>
  C9. A runner constructed with no config at all, or with a config that names no
  extensions, has the binary extensions \<open>''''\<close>, \<open>sh\<close>, \<open>bat\<close>, \<open>exe\<close>, the script
  extension \<open>js\<close> and the config extension \<open>json\<close>. With these sets a file with no
  extension, such as \<open>run\<close>, is classified \<open>binary\<close>, and \<open>_execItem\<close> runs a member of
  that type by the command line that is its absolute path, with no interpreter before
  it. It is the empty extension in the binary set that does this: without it the same
  file is of type \<open>other\<close> and is not run.
\<close>

theorem constructor_default_extensions:
  "extBinary (fst (constructor sys None)) = Some ['''', ''sh'', ''bat'', ''exe'']
   \<and> extScript (fst (constructor sys None)) = Some [''js'']
   \<and> extConfig (fst (constructor sys None)) = Some [''json'']
   \<and> extBinary (fst (constructor sys
        (Some (c\<lparr>extBinary := None, extScript := None, extConfig := None\<rparr>))))
       = Some ['''', ''sh'', ''bat'', ''exe'']
   \<and> extScript (fst (constructor sys
        (Some (c\<lparr>extBinary := None, extScript := None, extConfig := None\<rparr>))))
       = Some [''js'']
   \<and> extConfig (fst (constructor sys
        (Some (c\<lparr>extBinary := None, extScript := None, extConfig := None\<rparr>))))
       = Some [''json'']
   \<and> extname ''run'' = []
   \<and> classify ['''', ''sh'', ''bat'', ''exe''] [''js''] [''json''] (extname ''run'') = ''binary''
   \<and> invocations (fst (execItem sys
        \<lparr>path = p, pathAbs = a,
           type = classify ['''', ''sh'', ''bat'', ''exe''] [''js''] [''json''] (extname ''run'')\<rparr> w))
       = [a]
   \<and> classify [''sh'', ''bat'', ''exe''] [''js''] [''json''] (extname ''run'') = ''other''
   \<and> execItem sys
        \<lparr>path = p, pathAbs = a,
           type = classify [''sh'', ''bat'', ''exe''] [''js''] [''json''] (extname ''run'')\<rparr> w
       = ([], w)"
proof -
  have ext: "extname ''run'' = []"
    by (simp add: extname_def)
  have defaults: "fst (constructor sys None) =
      \<lparr>rootDir = Some (string_or None (process_cwd sys)), tasksDir = Some ''tasks'',
         extBinary = Some ['''', ''sh'', ''bat'', ''exe''], extScript = Some [''js''],
         extConfig = Some [''json'']\<rparr>"
    by (simp add: constructor_def Let_def no_config_def array_or_def string_or_def)
  have given: "fst (constructor sys
        (Some (c\<lparr>extBinary := None, extScript := None, extConfig := None\<rparr>))) =
      c\<lparr>rootDir := Some (string_or (rootDir c) (process_cwd sys)),
         tasksDir := Some (string_or (tasksDir c) ''tasks''),
         extBinary := Some ['''', ''sh'', ''bat'', ''exe''], extScript := Some [''js''],
         extConfig := Some [''json'']\<rparr>"
    by (simp add: constructor_def Let_def array_or_def)
  have binary: "classify ['''', ''sh'', ''bat'', ''exe''] [''js''] [''json''] [] = ''binary''"
    by (simp add: classify_def)
  have other: "classify [''sh'', ''bat'', ''exe''] [''js''] [''json''] [] = ''other''"
    by (simp add: classify_def)
  have run: "invocations (fst (execItem sys \<lparr>path = p, pathAbs = a, type = ''binary''\<rparr> w)) = [a]"
    by (simp add: invocations_execItem command_of_def)
  have skip: "execItem sys \<lparr>path = p, pathAbs = a, type = ''other''\<rparr> w = ([], w)"
    by (simp add: execItem_def command_of_def)
  show ?thesis
    by (simp add: defaults given ext binary other run skip)
qed

section \<open>Properties of the aggregate\<close>

lemma props_set_prototype: "props (set_prototype obj v) = props obj"
  by (cases v) simp_all

lemma map_of_assign:
  assumes "k \<noteq> ''__proto__''"
  shows "map_of (props (assign obj kv)) k = (if fst kv = k then Some (snd kv) else map_of (props obj) k)"
  using assms by (auto simp add: assign_def props_set_prototype update_conv')

lemma map_of_foldl_assign:
  assumes "k \<noteq> ''__proto__''"
  shows "map_of (props (foldl assign obj kvs)) k = (map_of (props obj) ++ map_of (rev kvs)) k"
proof (induction kvs arbitrary: obj)
  case Nil
  show ?case by simp
next
  case (Cons kv kvs)
  have "map_of (props (foldl assign (assign obj kv) kvs)) k =
          (map_of (props (assign obj kv)) ++ map_of (rev kvs)) k"
    by (rule Cons.IH)
  then show ?case
    using map_of_assign [OF assms, of obj kv]
    by (cases kv) (auto simp add: map_add_def split: option.splits)
qed

lemma merge_field_visited: "merge_field f obj = foldl assign obj (visited f)"
  by (simp add: merge_field_def visited_def split: option.splits)

lemma merge_declared: "fst (merge config obj) = foldl assign obj (declared config)"
  by (cases config) (simp_all add: merge_def declared_def merge_field_visited visited_def)

lemma merge_null: "merge JNull obj = (obj, Some TypeError)"
  by (simp add: merge_def)

lemma snd_readConfig:
  "snd (readConfig sys w it obj) = foldl assign obj (contributions sys w it)"
proof (cases "load sys w it")
  case (Inl err)
  then show ?thesis by (simp add: readConfig_def contributions_def)
next
  case (Inr config)
  have "snd (readConfig sys w it obj) = fst (merge config obj)"
    using Inr by (simp add: readConfig_def split: prod.splits option.splits)
  then show ?thesis
    using Inr by (simp add: merge_declared contributions_def)
qed

lemma snd_forEach_readConfig:
  "snd (forEach (readConfig sys w) items obj) =
     foldl assign obj (concat (map (contributions sys w) items))"
proof (induction items arbitrary: obj)
  case Nil
  show ?case by simp
next
  case (Cons it items)
  show ?case
    using Cons.IH [of "snd (readConfig sys w it obj)"]
    by (simp add: split_beta snd_readConfig)
qed

lemma readConfig_failure:
  assumes "load sys w it = Inl err"
  shows "readConfig sys w it obj = ([ReadFileSync (pathAbs it), LogError err], obj)"
  using assms by (simp add: readConfig_def)

text \<open>
  A file that holds \<open>null\<close> parses, and the read of \<open>config.dependencies\<close> throws before
  anything is assigned: such an entry contributes nothing either.
\<close>

lemma readConfig_null:
  assumes "load sys w it = Inr JNull"
  shows "readConfig sys w it obj = ([ReadFileSync (pathAbs it), LogError TypeError], obj)"
  using assms by (simp add: readConfig_def merge_null)

lemma load_failure:
  "load sys w it = Inl err \<longleftrightarrow>
     readFileSync sys (pathAbs it) w = Inl err
     \<or> (\<exists>data. readFileSync sys (pathAbs it) w = Inr data \<and> JSON_parse sys data = Inl err)"
  by (auto simp add: load_def split: sum.splits)

lemma getDependencies_eq:
  "getDependencies sys self w =
     (GetConfig (directory self)
        # fst (forEach (readConfig sys w) (getConfig sys (directory self) w) empty_object),
      snd (forEach (readConfig sys w) (getConfig sys (directory self) w) empty_object))"
  by (simp add: getDependencies_def Let_def split_beta)

lemma map_of_getDependencies:
  assumes "k \<noteq> ''__proto__''"
  shows "map_of (props (snd (getDependencies sys self w))) k =
           map_of (rev (concat (map (contributions sys w) (getConfig sys (directory self) w)))) k"
  using map_of_foldl_assign [OF assms, of empty_object]
  by (simp add: getDependencies_eq snd_forEach_readConfig empty_object_def)

text \<open>The keys that \<open>Object.keys\<close> lists are the keys of the own properties.\<close>

lemma set_own_keys: "set (own_keys ps) = fst ` set ps"
  by (auto simp add: own_keys_def)

lemma rev_map_filter: "rev (List.map_filter g ks) = List.map_filter g (rev ks)"
  by (simp add: List.map_filter_def rev_map rev_filter)

lemma map_of_map_filter_Pair:
  "map_of (List.map_filter (\<lambda>k. map_option (Pair k) (f k)) ks) k =
     (if k \<in> set ks then f k else None)"
  by (induction ks) (auto simp add: List.map_filter_simps split: option.splits)

lemma map_of_rev_own_entries: "map_of (rev (own_entries ps)) k = map_of ps k"
proof -
  have "map_of (rev (own_entries ps)) k = (if k \<in> set (rev (own_keys ps)) then map_of ps k else None)"
    unfolding own_entries_def rev_map_filter by (rule map_of_map_filter_Pair)
  also have "\<dots> = map_of ps k"
  proof (cases "k \<in> fst ` set ps")
    case True
    then show ?thesis by (simp add: set_own_keys)
  next
    case False
    then have "map_of ps k = None" by (simp add: map_of_eq_None_iff)
    then show ?thesis by simp
  qed
  finally show ?thesis .
qed

lemma map_of_rev_declared:
  assumes "map_of ps ''dependencies'' = Some (JObj d)"
    and "map_of ps ''devDependencies'' = Some (JObj e)"
  shows "map_of (rev (declared (JObj ps))) k = (map_of d ++ map_of e) k"
  using assms
  by (simp add: declared_def visited_def map_add_def map_of_rev_own_entries split: option.splits)

lemma map_of_rev_declared_dependencies:
  assumes "map_of ps ''dependencies'' = Some (JObj d)"
    and "map_of ps ''devDependencies'' = None"
  shows "map_of (rev (declared (JObj ps))) k = map_of d k"
  using assms by (simp add: declared_def visited_def map_of_rev_own_entries)

text \<open>The own properties of the aggregate have distinct names, and each is visited once.\<close>

lemma distinct_props_assign:
  "distinct (map fst (props obj)) \<Longrightarrow> distinct (map fst (props (assign obj kv)))"
  by (simp add: assign_def props_set_prototype distinct_update)

lemma distinct_props_foldl_assign:
  "distinct (map fst (props obj)) \<Longrightarrow> distinct (map fst (props (foldl assign obj kvs)))"
  by (induction kvs arbitrary: obj) (simp_all add: distinct_props_assign)

lemma distinct_props_getDependencies:
  "distinct (map fst (props (snd (getDependencies sys self w))))"
  by (simp add: getDependencies_eq snd_forEach_readConfig distinct_props_foldl_assign
      empty_object_def)

lemma distinct_own_keys: "distinct (map fst ps) \<Longrightarrow> distinct (own_keys ps)"
  by (auto simp add: own_keys_def)

lemma map_fst_own_entries: "map fst (own_entries ps) = own_keys ps"
proof -
  have "List.map_filter (\<lambda>k. map_option (Pair k) (map_of ps k)) ks
          = map (\<lambda>k. (k, the (map_of ps k))) ks" if "set ks \<subseteq> fst ` set ps" for ks
    using that
  proof (induction ks)
    case Nil
    show ?case by (simp add: List.map_filter_simps)
  next
    case (Cons a ks)
    then obtain v where "map_of ps a = Some v"
      by (cases "map_of ps a") (auto simp add: map_of_eq_None_iff)
    then show ?case
      using Cons by (simp add: List.map_filter_simps)
  qed
  then have "own_entries ps = map (\<lambda>k. (k, the (map_of ps k))) (own_keys ps)"
    by (simp add: own_entries_def set_own_keys)
  then show ?thesis
    by (simp add: comp_def)
qed

section \<open>Properties of the installation\<close>

lemma invocations_installItem:
  "invocations (fst (installItem sys suffix kv w)) =
     (case npm_command suffix kv of Inl err \<Rightarrow> [] | Inr c \<Rightarrow> [c])"
  by (simp add: installItem_def split: sum.splits prod.splits)

lemma invocations_forEach_installItem:
  "invocations (fst (forEach (installItem sys suffix) kvs w)) = npm_commands suffix kvs"
proof (induction kvs arbitrary: w)
  case Nil
  show ?case by (simp add: npm_commands_def)
next
  case (Cons kv kvs)
  show ?case
    using Cons.IH [of "snd (installItem sys suffix kv w)"]
    by (simp add: split_beta invocations_append invocations_installItem npm_commands_def)
qed

lemma invocations_forEach_readConfig:
  "invocations (fst (forEach (readConfig sys w) items obj)) = []"
proof (induction items arbitrary: obj)
  case Nil
  show ?case by simp
next
  case (Cons it items)
  have "invocations (fst (readConfig sys w it obj)) = []"
    by (simp add: readConfig_def split: sum.splits prod.splits option.splits)
  then show ?case
    using Cons.IH by (simp add: split_beta invocations_append)
qed

lemma installItem_failure:
  assumes "npm_command suffix kv = Inr c" and "execSync sys c w = (Inl err, w')"
  shows "installItem sys suffix kv w = ([Log c, ExecSync c, LogError err], w')"
  using assms by (simp add: installItem_def)

lemma install_eq:
  "install sys self save w =
     (Log ''Installing task dependencies...'' # fst (getDependencies sys self w)
        @ fst (forEach (installItem sys (if save then '' -D'' else []))
                 (own_entries (props (snd (getDependencies sys self w)))) w),
      snd (forEach (installItem sys (if save then '' -D'' else []))
             (own_entries (props (snd (getDependencies sys self w)))) w))"
  by (simp add: install_def Let_def split_beta)

lemma npm_commands_append:
  "npm_commands suffix (xs @ ys) = npm_commands suffix xs @ npm_commands suffix ys"
  by (simp add: npm_commands_def)

lemma npm_commands_strings:
  "npm_commands suffix (map (\<lambda>(k, v). (k, JStr v)) kvs) =
     map (\<lambda>(k, v). ''npm i '' @ k @ ''@'' @ v @ suffix) kvs"
  by (induction kvs) (auto simp add: npm_commands_def npm_command_def)

lemma install_invocations:
  "invocations (fst (install sys self save w)) =
     npm_commands (if save then '' -D'' else [])
       (own_entries (props (snd (getDependencies sys self w))))"
  by (simp add: install_eq invocations_append getDependencies_eq
      invocations_forEach_readConfig invocations_forEach_installItem)

text \<open>The aggregate of the small installation.\<close>

lemma machine_dependencies:
  "getDependencies machine runner 0 =
     ([GetConfig ''/srv/tasks'',
       ReadFileSync ''/srv/tasks/groupA/config.json'',
       ReadFileSync ''/srv/tasks/build/config.json'', LogError (Failure ''SyntaxError''),
       ReadFileSync ''/srv/tasks/groupB/config.json'',
       ReadFileSync ''/srv/tasks/deploy/config.json''],
      \<lparr>props = [(''x'', JStr ''2.0.0''), (''y'', JStr ''3.2.0''), (''z'', JStr ''0.2.0'')],
         proto = ObjectPrototype\<rparr>)"
  by (simp add: getDependencies_def machine_def runner_def readConfig_def load_def
      groupA_config_def build_config_def groupB_config_def config_json_def
      configA_def configB_def configD_def merge_def merge_field_def empty_object_def assign_def
      own_entries_def own_keys_def is_array_index_def is_digit_def List.map_filter_simps)

lemma machine_contributions:
  "contributions machine 0 groupA_config = [(''x'', JStr ''1.0.0''), (''y'', JStr ''3.1.0'')]
   \<and> contributions machine 0 build_config = []
   \<and> contributions machine 0 groupB_config =
       [(''x'', JStr ''2.0.0''), (''z'', JStr ''0.1.0''), (''z'', JStr ''0.2.0'')]
   \<and> contributions machine 0 config_json = [(''y'', JStr ''3.2.0'')]"
  by (simp add: contributions_def load_def machine_def declared_def visited_def
      groupA_config_def build_config_def groupB_config_def config_json_def
      configA_def configB_def configD_def
      own_entries_def own_keys_def is_array_index_def is_digit_def List.map_filter_simps)

section \<open>The claims about dependencies\<close>

text \<open>
  C6. The aggregate of \<open>_getDependencies\<close> holds, for a package key, the value of the
  config entry that was read last among those that declare the key. Let the scan return
  the entries \<open>xs\<close>, then \<open>it\<close>, then \<open>ys\<close>, let \<open>it\<close> give the key \<open>k\<close> the value \<open>v\<close>
  (the last of the pairs it declares for \<open>k\<close>), and let no entry of \<open>ys\<close> declare \<open>k\<close>.
  Then the aggregate maps \<open>k\<close> to \<open>v\<close>, whatever the entries \<open>xs\<close> read before \<open>it\<close>
  declare for \<open>k\<close>: versions are not compared. A package key is not the reserved property
  name \<open>__proto__\<close>, which an assignment does not store as a property.
\<close>

theorem getDependencies_last_scan_wins:
  assumes "getConfig sys (directory self) w = xs @ it # ys"
    and "map_of (rev (contributions sys w it)) k = Some v"
    and "list_all (\<lambda>y. k \<notin> fst ` set (contributions sys w y)) ys"
    and "k \<noteq> ''__proto__''"
  shows "map_of (props (snd (getDependencies sys self w))) k = Some v"
proof -
  have "k \<notin> fst ` set (concat (map (contributions sys w) ys))"
    using assms(3) by (induction ys) auto
  then have "map_of (rev (concat (map (contributions sys w) ys))) k = None"
    by (simp add: map_of_eq_None_iff)
  then have "map_of (rev (concat (map (contributions sys w) (xs @ it # ys)))) k = Some v"
    using assms(2) by (simp add: map_add_def)
  then show ?thesis
    using assms(1) map_of_getDependencies [OF assms(4), of sys self w] by simp
qed

theorem getDependencies_last_scan_wins_witness:
  "getConfig machine (directory runner) 0 = [groupA_config, build_config] @ groupB_config # [config_json]
   \<and> map_of (rev (contributions machine 0 groupA_config)) ''x'' = Some (JStr ''1.0.0'')
   \<and> map_of (rev (contributions machine 0 groupB_config)) ''x'' = Some (JStr ''2.0.0'')
   \<and> list_all (\<lambda>y. ''x'' \<notin> fst ` set (contributions machine 0 y)) [config_json]
   \<and> ''x'' \<noteq> ''__proto__''
   \<and> map_of (props (snd (getDependencies machine runner 0))) ''x'' = Some (JStr ''2.0.0'')"
proof -
  have h1: "getConfig machine (directory runner) 0
              = [groupA_config, build_config] @ groupB_config # [config_json]"
    by (simp add: machine_def)
  have h2: "map_of (rev (contributions machine 0 groupB_config)) ''x'' = Some (JStr ''2.0.0'')"
    by (simp add: machine_contributions)
  have h3: "list_all (\<lambda>y. ''x'' \<notin> fst ` set (contributions machine 0 y)) [config_json]"
    by (simp add: machine_contributions)
  have h4: "''x'' \<noteq> ''__proto__''"
    by simp
  have earlier: "map_of (rev (contributions machine 0 groupA_config)) ''x'' = Some (JStr ''1.0.0'')"
    by (simp add: machine_contributions)
  show ?thesis
    using getDependencies_last_scan_wins [OF h1 h2 h3 h4] h1 h2 h3 earlier by simp
qed

text \<open>
  C7. A config entry that cannot be read, or whose content cannot be parsed, does not
  end the aggregation. Let the scan return the entries \<open>xs\<close>, then \<open>it\<close>, then \<open>ys\<close>, and
  let \<open>readFileSync\<close> or \<open>JSON.parse\<close> throw \<open>err\<close> on \<open>it\<close>. Then the error is caught and
  printed after the read, the aggregate is the same after \<open>it\<close> as before it, the entries
  \<open>ys\<close> are read after it, and the aggregate returned is the one that the entries \<open>xs\<close>
  and \<open>ys\<close> alone give.
\<close>

theorem getDependencies_skips_failed_entry:
  assumes "getConfig sys (directory self) w = xs @ it # ys"
    and "readFileSync sys (pathAbs it) w = Inl err
         \<or> (\<exists>data. readFileSync sys (pathAbs it) w = Inr data \<and> JSON_parse sys data = Inl err)"
    and "forEach (readConfig sys w) xs empty_object = (t1, d1)"
  shows "getDependencies sys self w =
           (GetConfig (directory self) # t1 @ [ReadFileSync (pathAbs it), LogError err]
              @ fst (forEach (readConfig sys w) ys d1),
            snd (forEach (readConfig sys w) ys d1))
         \<and> snd (getDependencies sys self w) =
             snd (forEach (readConfig sys w) (xs @ ys) empty_object)"
proof -
  have "load sys w it = Inl err"
    using assms(2) by (simp add: load_failure)
  then have step: "readConfig sys w it d1 = ([ReadFileSync (pathAbs it), LogError err], d1)"
    by (rule readConfig_failure)
  have whole: "forEach (readConfig sys w) (xs @ it # ys) empty_object =
      (t1 @ [ReadFileSync (pathAbs it), LogError err] @ fst (forEach (readConfig sys w) ys d1),
       snd (forEach (readConfig sys w) ys d1))"
    using assms(3) step by (simp add: forEach_append split_beta)
  have others: "snd (forEach (readConfig sys w) (xs @ ys) empty_object) =
      snd (forEach (readConfig sys w) ys d1)"
    using assms(3) by (simp add: forEach_append split_beta)
  show ?thesis
    using assms(1) whole others by (simp add: getDependencies_eq)
qed

theorem getDependencies_skips_failed_entry_witness:
  "getConfig machine (directory runner) 0 = [groupA_config] @ build_config # [groupB_config, config_json]
   \<and> readFileSync machine (pathAbs build_config) 0 = Inr ''{''
   \<and> JSON_parse machine ''{'' = Inl (Failure ''SyntaxError'')
   \<and> forEach (readConfig machine 0) [groupA_config] empty_object =
       ([ReadFileSync ''/srv/tasks/groupA/config.json''],
        \<lparr>props = [(''x'', JStr ''1.0.0''), (''y'', JStr ''3.1.0'')], proto = ObjectPrototype\<rparr>)
   \<and> getDependencies machine runner 0 =
       ([GetConfig ''/srv/tasks'',
         ReadFileSync ''/srv/tasks/groupA/config.json'',
         ReadFileSync ''/srv/tasks/build/config.json'', LogError (Failure ''SyntaxError''),
         ReadFileSync ''/srv/tasks/groupB/config.json'',
         ReadFileSync ''/srv/tasks/deploy/config.json''],
        \<lparr>props = [(''x'', JStr ''2.0.0''), (''y'', JStr ''3.2.0''), (''z'', JStr ''0.2.0'')],
           proto = ObjectPrototype\<rparr>)
   \<and> snd (getDependencies machine runner 0) =
       snd (forEach (readConfig machine 0) [groupA_config, groupB_config, config_json] empty_object)"
proof -
  have h1: "getConfig machine (directory runner) 0
              = [groupA_config] @ build_config # [groupB_config, config_json]"
    by (simp add: machine_def)
  have read: "readFileSync machine (pathAbs build_config) 0 = Inr ''{''"
    by (simp add: machine_def build_config_def)
  have parse: "JSON_parse machine ''{'' = Inl (Failure ''SyntaxError'')"
    by (simp add: machine_def)
  have h2: "readFileSync machine (pathAbs build_config) 0 = Inl (Failure ''SyntaxError'')
      \<or> (\<exists>data. readFileSync machine (pathAbs build_config) 0 = Inr data
            \<and> JSON_parse machine data = Inl (Failure ''SyntaxError''))"
    using read parse by simp
  have h3: "forEach (readConfig machine 0) [groupA_config] empty_object =
       ([ReadFileSync ''/srv/tasks/groupA/config.json''],
        \<lparr>props = [(''x'', JStr ''1.0.0''), (''y'', JStr ''3.1.0'')], proto = ObjectPrototype\<rparr>)"
    by (simp add: machine_def readConfig_def load_def groupA_config_def configA_def merge_def
        merge_field_def empty_object_def assign_def own_entries_def own_keys_def
        is_array_index_def is_digit_def List.map_filter_simps)
  note r = getDependencies_skips_failed_entry [OF h1 h2 h3]
  have others: "snd (getDependencies machine runner 0) =
       snd (forEach (readConfig machine 0) ([groupA_config] @ [groupB_config, config_json])
              empty_object)"
    using r by blast
  show ?thesis
    using h1 read parse h3 others by (simp add: machine_dependencies)
qed

text \<open>
  C10. Inside one config file the block for \<open>devDependencies\<close> runs after the block for
  \<open>dependencies\<close>. So when both mappings of the file have the package key \<open>k\<close>, the
  aggregate holds the value of \<open>devDependencies\<close> for \<open>k\<close> once the file is merged.
\<close>

theorem merge_devDependencies_overwrite:
  assumes "map_of ps ''dependencies'' = Some (JObj d)"
    and "map_of ps ''devDependencies'' = Some (JObj e)"
    and "map_of d k = Some v1"
    and "map_of e k = Some v2"
    and "k \<noteq> ''__proto__''"
  shows "merge (JObj ps) obj =
           (foldl assign (foldl assign obj (own_entries d)) (own_entries e), None)
         \<and> map_of (props (fst (merge (JObj ps) obj))) k = Some v2"
proof -
  have steps: "merge (JObj ps) obj =
           (foldl assign (foldl assign obj (own_entries d)) (own_entries e), None)"
    using assms(1,2) by (simp add: merge_def merge_field_def)
  have "map_of (rev (declared (JObj ps))) k = Some v2"
    using map_of_rev_declared [OF assms(1,2), of k] assms(4) by (simp add: map_add_def)
  then have "map_of (props (foldl assign obj (declared (JObj ps)))) k = Some v2"
    using map_of_foldl_assign [OF assms(5), of obj "declared (JObj ps)"] by (simp add: map_add_def)
  then have "map_of (props (fst (merge (JObj ps) obj))) k = Some v2"
    by (simp add: merge_declared)
  then show ?thesis
    using steps by blast
qed

theorem merge_devDependencies_overwrite_witness:
  "map_of [(''dependencies'', JObj [(''x'', JStr ''2.0.0''), (''z'', JStr ''0.1.0'')]),
           (''devDependencies'', JObj [(''z'', JStr ''0.2.0'')])] ''dependencies''
     = Some (JObj [(''x'', JStr ''2.0.0''), (''z'', JStr ''0.1.0'')])
   \<and> map_of [(''dependencies'', JObj [(''x'', JStr ''2.0.0''), (''z'', JStr ''0.1.0'')]),
           (''devDependencies'', JObj [(''z'', JStr ''0.2.0'')])] ''devDependencies''
     = Some (JObj [(''z'', JStr ''0.2.0'')])
   \<and> map_of [(''x'', JStr ''2.0.0''), (''z'', JStr ''0.1.0'')] ''z'' = Some (JStr ''0.1.0'')
   \<and> map_of [(''z'', JStr ''0.2.0'')] ''z'' = Some (JStr ''0.2.0'')
   \<and> ''z'' \<noteq> ''__proto__''
   \<and> map_of (props (fst (merge configB empty_object))) ''z'' = Some (JStr ''0.2.0'')
   \<and> fst (merge configB empty_object) =
       \<lparr>props = [(''x'', JStr ''2.0.0''), (''z'', JStr ''0.2.0'')], proto = ObjectPrototype\<rparr>"
proof -
  have h1: "map_of [(''dependencies'', JObj [(''x'', JStr ''2.0.0''), (''z'', JStr ''0.1.0'')]),
           (''devDependencies'', JObj [(''z'', JStr ''0.2.0'')])] ''dependencies''
     = Some (JObj [(''x'', JStr ''2.0.0''), (''z'', JStr ''0.1.0'')])"
    by simp
  have h2: "map_of [(''dependencies'', JObj [(''x'', JStr ''2.0.0''), (''z'', JStr ''0.1.0'')]),
           (''devDependencies'', JObj [(''z'', JStr ''0.2.0'')])] ''devDependencies''
     = Some (JObj [(''z'', JStr ''0.2.0'')])"
    by simp
  have h3: "map_of [(''x'', JStr ''2.0.0''), (''z'', JStr ''0.1.0'')] ''z'' = Some (JStr ''0.1.0'')"
    by simp
  have h4: "map_of [(''z'', JStr ''0.2.0'')] ''z'' = Some (JStr ''0.2.0'')"
    by simp
  have h5: "''z'' \<noteq> ''__proto__''"
    by simp
  note r = merge_devDependencies_overwrite [OF h1 h2 h3 h4 h5, of empty_object]
  have value_of_z: "map_of (props (fst (merge configB empty_object))) ''z'' = Some (JStr ''0.2.0'')"
    using r unfolding configB_def by blast
  have merged: "fst (merge configB empty_object) =
       \<lparr>props = [(''x'', JStr ''2.0.0''), (''z'', JStr ''0.2.0'')], proto = ObjectPrototype\<rparr>"
    by (simp add: configB_def merge_def merge_field_def empty_object_def assign_def
        own_entries_def own_keys_def is_array_index_def is_digit_def List.map_filter_simps)
  show ?thesis
    using h1 h2 h3 h4 value_of_z merged by simp
qed

lemma length_own_keys: "length (own_keys ps) = length ps"
  using sum_length_filter_compl [of is_array_index "map fst ps"]
  by (simp add: own_keys_def)

lemma npm_commands_explicit:
  "npm_commands suffix kvs =
     concat (map (\<lambda>kv. case toString (snd kv) of
                          Inl err \<Rightarrow> []
                        | Inr s \<Rightarrow> [''npm i '' @ fst kv @ ''@'' @ s @ suffix]) kvs)"
  by (induction kvs) (simp_all add: npm_commands_def npm_command_def split: sum.splits)

text \<open>
  C8. \<open>install\<close> visits every dependency of the aggregate once, in the order of
  \<open>Object.keys\<close>: the names visited are distinct, they are the names of all properties
  of the aggregate, and there are as many as properties. Whatever the commands return,
  the command lines handed to \<open>execSync\<close> are, for each dependency in that order,
  \<open>npm i <name>@<version>\<close> with the text of the version, followed by \<open> -D\<close> when
  \<open>save\<close> is true; a version with no text (an object that hides \<open>toString\<close>) throws
  inside the \<open>try\<close> before a command is built. For versions that are strings, as the
  config format has them, this is exactly one command line of that form per dependency.
  A command that fails does not end the loop: when \<open>execSync\<close> throws \<open>err\<close> on the
  command of the dependency \<open>kv\<close>, the error is caught and printed, and the dependencies
  \<open>ys\<close> after \<open>kv\<close> are installed from the state the failed command left.
\<close>

theorem install_one_command_per_dependency:
  assumes "deps = own_entries (props (snd (getDependencies sys self w)))"
    and "suffix = (if save then '' -D'' else [])"
  shows "invocations (fst (install sys self save w)) =
           concat (map (\<lambda>kv. case toString (snd kv) of
                                Inl err \<Rightarrow> []
                              | Inr s \<Rightarrow> [''npm i '' @ fst kv @ ''@'' @ s @ suffix]) deps)
         \<and> distinct (map fst deps)
         \<and> set (map fst deps) = fst ` set (props (snd (getDependencies sys self w)))
         \<and> length deps = length (props (snd (getDependencies sys self w)))
         \<and> (deps = map (\<lambda>(k, v). (k, JStr v)) kvs \<longrightarrow>
              invocations (fst (install sys self save w)) =
                map (\<lambda>(k, v). ''npm i '' @ k @ ''@'' @ v @ suffix) kvs)
         \<and> (deps = xs @ kv # ys \<and> toString (snd kv) = Inr s
              \<and> forEach (installItem sys suffix) xs w = (t1, w1)
              \<and> execSync sys (''npm i '' @ fst kv @ ''@'' @ s @ suffix) w1 = (Inl err, w2) \<longrightarrow>
              fst (install sys self save w) =
                Log ''Installing task dependencies...'' # fst (getDependencies sys self w) @ t1
                  @ [Log (''npm i '' @ fst kv @ ''@'' @ s @ suffix),
                     ExecSync (''npm i '' @ fst kv @ ''@'' @ s @ suffix), LogError err]
                  @ fst (forEach (installItem sys suffix) ys w2))"
proof -
  have commands: "invocations (fst (install sys self save w)) = npm_commands suffix deps"
    using assms install_invocations [of sys self save w] by simp
  have explicit: "invocations (fst (install sys self save w)) =
           concat (map (\<lambda>kv. case toString (snd kv) of
                                Inl err \<Rightarrow> []
                              | Inr s \<Rightarrow> [''npm i '' @ fst kv @ ''@'' @ s @ suffix]) deps)"
    using commands by (simp add: npm_commands_explicit)
  have names: "map fst deps = own_keys (props (snd (getDependencies sys self w)))"
    using assms(1) by (simp add: map_fst_own_entries)
  have once: "distinct (map fst deps)"
    unfolding names by (rule distinct_own_keys) (rule distinct_props_getDependencies)
  have all: "set (map fst deps) = fst ` set (props (snd (getDependencies sys self w)))"
    unfolding names by (rule set_own_keys)
  have "length (map fst deps) = length (props (snd (getDependencies sys self w)))"
    unfolding names by (rule length_own_keys)
  then have count: "length deps = length (props (snd (getDependencies sys self w)))"
    by simp
  have strings: "invocations (fst (install sys self save w)) =
                map (\<lambda>(k, v). ''npm i '' @ k @ ''@'' @ v @ suffix) kvs"
    if "deps = map (\<lambda>(k, v). (k, JStr v)) kvs"
    using commands that by (simp add: npm_commands_strings)
  have failure: "fst (install sys self save w) =
                Log ''Installing task dependencies...'' # fst (getDependencies sys self w) @ t1
                  @ [Log (''npm i '' @ fst kv @ ''@'' @ s @ suffix),
                     ExecSync (''npm i '' @ fst kv @ ''@'' @ s @ suffix), LogError err]
                  @ fst (forEach (installItem sys suffix) ys w2)"
    if "deps = xs @ kv # ys" and "toString (snd kv) = Inr s"
      and "forEach (installItem sys suffix) xs w = (t1, w1)"
      and "execSync sys (''npm i '' @ fst kv @ ''@'' @ s @ suffix) w1 = (Inl err, w2)"
  proof -
    have "npm_command suffix kv = Inr (''npm i '' @ fst kv @ ''@'' @ s @ suffix)"
      using that(2) by (simp add: npm_command_def)
    then have step: "installItem sys suffix kv w1 =
        ([Log (''npm i '' @ fst kv @ ''@'' @ s @ suffix),
          ExecSync (''npm i '' @ fst kv @ ''@'' @ s @ suffix), LogError err], w2)"
      using that(4) by (rule installItem_failure)
    have "forEach (installItem sys suffix) (xs @ kv # ys) w =
        (t1 @ [Log (''npm i '' @ fst kv @ ''@'' @ s @ suffix),
               ExecSync (''npm i '' @ fst kv @ ''@'' @ s @ suffix), LogError err]
            @ fst (forEach (installItem sys suffix) ys w2),
         snd (forEach (installItem sys suffix) ys w2))"
      using that(3) step by (simp add: forEach_append split_beta)
    then show ?thesis
      using assms that(1) by (simp add: install_eq)
  qed
  show ?thesis
    using explicit once all count strings failure by blast
qed

theorem install_one_command_per_dependency_witness:
  "[(''x'', JStr ''2.0.0''), (''y'', JStr ''3.2.0''), (''z'', JStr ''0.2.0'')] =
     own_entries (props (snd (getDependencies machine runner 0)))
   \<and> '' -D'' = (if True then '' -D'' else [])
   \<and> [(''x'', JStr ''2.0.0''), (''y'', JStr ''3.2.0''), (''z'', JStr ''0.2.0'')] =
       map (\<lambda>(k, v). (k, JStr v)) [(''x'', ''2.0.0''), (''y'', ''3.2.0''), (''z'', ''0.2.0'')]
   \<and> [(''x'', JStr ''2.0.0''), (''y'', JStr ''3.2.0''), (''z'', JStr ''0.2.0'')] =
       [(''x'', JStr ''2.0.0'')] @ (''y'', JStr ''3.2.0'') # [(''z'', JStr ''0.2.0'')]
   \<and> toString (snd (''y'', JStr ''3.2.0'')) = Inr ''3.2.0''
   \<and> forEach (installItem machine '' -D'') [(''x'', JStr ''2.0.0'')] 0 =
       ([Log ''npm i x@2.0.0 -D'', ExecSync ''npm i x@2.0.0 -D'', Log ''ok''], 1)
   \<and> execSync machine ''npm i y@3.2.0 -D'' 1 = (Inl (Failure ''exit 1''), 2)
   \<and> invocations (fst (install machine runner True 0)) =
       [''npm i x@2.0.0 -D'', ''npm i y@3.2.0 -D'', ''npm i z@0.2.0 -D'']
   \<and> length (props (snd (getDependencies machine runner 0))) = 3
   \<and> fst (install machine runner True 0) =
       [Log ''Installing task dependencies...'',
        GetConfig ''/srv/tasks'',
        ReadFileSync ''/srv/tasks/groupA/config.json'',
        ReadFileSync ''/srv/tasks/build/config.json'', LogError (Failure ''SyntaxError''),
        ReadFileSync ''/srv/tasks/groupB/config.json'',
        ReadFileSync ''/srv/tasks/deploy/config.json'',
        Log ''npm i x@2.0.0 -D'', ExecSync ''npm i x@2.0.0 -D'', Log ''ok'',
        Log ''npm i y@3.2.0 -D'', ExecSync ''npm i y@3.2.0 -D'', LogError (Failure ''exit 1''),
        Log ''npm i z@0.2.0 -D'', ExecSync ''npm i z@0.2.0 -D'', Log ''ok'']"
proof -
  have h1: "[(''x'', JStr ''2.0.0''), (''y'', JStr ''3.2.0''), (''z'', JStr ''0.2.0'')] =
     own_entries (props (snd (getDependencies machine runner 0)))"
    by (simp add: machine_dependencies own_entries_def own_keys_def is_array_index_def
        is_digit_def List.map_filter_simps)
  have h2: "'' -D'' = (if True then '' -D'' else [])"
    by simp
  have strings: "[(''x'', JStr ''2.0.0''), (''y'', JStr ''3.2.0''), (''z'', JStr ''0.2.0'')] =
       map (\<lambda>(k, v). (k, JStr v)) [(''x'', ''2.0.0''), (''y'', ''3.2.0''), (''z'', ''0.2.0'')]"
    by simp
  have split: "[(''x'', JStr ''2.0.0''), (''y'', JStr ''3.2.0''), (''z'', JStr ''0.2.0'')] =
       [(''x'', JStr ''2.0.0'')] @ (''y'', JStr ''3.2.0'') # [(''z'', JStr ''0.2.0'')]"
    by simp
  have version: "toString (snd (''y'', JStr ''3.2.0'')) = Inr ''3.2.0''"
    by simp
  have before: "forEach (installItem machine '' -D'') [(''x'', JStr ''2.0.0'')] 0 =
       ([Log ''npm i x@2.0.0 -D'', ExecSync ''npm i x@2.0.0 -D'', Log ''ok''], 1)"
    by (simp add: installItem_def npm_command_def machine_def)
  have fails: "execSync machine ''npm i y@3.2.0 -D'' 1 = (Inl (Failure ''exit 1''), 2)"
    by (simp add: machine_def)
  have fails': "execSync machine
      (''npm i '' @ fst (''y'', JStr ''3.2.0'') @ ''@'' @ ''3.2.0'' @ '' -D'') 1
        = (Inl (Failure ''exit 1''), 2)"
    using fails by simp
  have rest: "installItem machine '' -D'' (''z'', JStr ''0.2.0'') 2 =
       ([Log ''npm i z@0.2.0 -D'', ExecSync ''npm i z@0.2.0 -D'', Log ''ok''], 3)"
    by (simp add: installItem_def npm_command_def machine_def)
  note r = install_one_command_per_dependency [OF h1 h2,
      where kvs = "[(''x'', ''2.0.0''), (''y'', ''3.2.0''), (''z'', ''0.2.0'')]"
        and xs = "[(''x'', JStr ''2.0.0'')]" and kv = "(''y'', JStr ''3.2.0'')"
        and ys = "[(''z'', JStr ''0.2.0'')]" and s = "''3.2.0''"
        and ?t1.0 = "[Log ''npm i x@2.0.0 -D'', ExecSync ''npm i x@2.0.0 -D'', Log ''ok'']"
        and ?w1.0 = 1 and err = "Failure ''exit 1''" and ?w2.0 = 2]
  note r5 = r [THEN conjunct2, THEN conjunct2, THEN conjunct2, THEN conjunct2]
  have commands: "invocations (fst (install machine runner True 0)) =
       map (\<lambda>(k, v). ''npm i '' @ k @ ''@'' @ v @ '' -D'')
         [(''x'', ''2.0.0''), (''y'', ''3.2.0''), (''z'', ''0.2.0'')]"
    by (rule r5 [THEN conjunct1, THEN mp]) (rule strings)
  have count: "length [(''x'', JStr ''2.0.0''), (''y'', JStr ''3.2.0''), (''z'', JStr ''0.2.0'')]
      = length (props (snd (getDependencies machine runner 0)))"
    by (rule r [THEN conjunct2, THEN conjunct2, THEN conjunct2, THEN conjunct1])
  have trace: "fst (install machine runner True 0) =
       Log ''Installing task dependencies...'' # fst (getDependencies machine runner 0)
         @ [Log ''npm i x@2.0.0 -D'', ExecSync ''npm i x@2.0.0 -D'', Log ''ok'']
         @ [Log (''npm i '' @ fst (''y'', JStr ''3.2.0'') @ ''@'' @ ''3.2.0'' @ '' -D''),
            ExecSync (''npm i '' @ fst (''y'', JStr ''3.2.0'') @ ''@'' @ ''3.2.0'' @ '' -D''),
            LogError (Failure ''exit 1'')]
         @ fst (forEach (installItem machine '' -D'') [(''z'', JStr ''0.2.0'')] 2)"
    by (rule r5 [THEN conjunct2, THEN mp]) (intro conjI split version before fails')
  have commands': "invocations (fst (install machine runner True 0)) =
       [''npm i x@2.0.0 -D'', ''npm i y@3.2.0 -D'', ''npm i z@0.2.0 -D'']"
    unfolding commands by simp
  have count': "length (props (snd (getDependencies machine runner 0))) = 3"
    using count by simp
  have trace': "fst (install machine runner True 0) =
       [Log ''Installing task dependencies...'',
        GetConfig ''/srv/tasks'',
        ReadFileSync ''/srv/tasks/groupA/config.json'',
        ReadFileSync ''/srv/tasks/build/config.json'', LogError (Failure ''SyntaxError''),
        ReadFileSync ''/srv/tasks/groupB/config.json'',
        ReadFileSync ''/srv/tasks/deploy/config.json'',
        Log ''npm i x@2.0.0 -D'', ExecSync ''npm i x@2.0.0 -D'', Log ''ok'',
        Log ''npm i y@3.2.0 -D'', ExecSync ''npm i y@3.2.0 -D'', LogError (Failure ''exit 1''),
        Log ''npm i z@0.2.0 -D'', ExecSync ''npm i z@0.2.0 -D'', Log ''ok'']"
    unfolding trace by (simp add: machine_dependencies rest)
  show ?thesis
    using h1 h2 strings split version before fails commands' count' trace' by blast
qed


end
